theory Spec2Isabelle
  imports Main
begin

section \<open>Offers as the extraction client validates them\<close>

text \<open>
  \<^verbatim>\<open>parse.ts\<close> (both packages) declares \<^verbatim>\<open>ParsedOfferSchema\<close> with every field
  \<^verbatim>\<open>.nullable().optional()\<close>: a field is absent (\<^verbatim>\<open>undefined\<close>), \<^verbatim>\<open>null\<close> or a value.
  The type of JavaScript numbers is left as the parameter \<open>'n\<close>; the only things the code
  asks of a number are whether it is truthy (it is not zero; \<^verbatim>\<open>z.number()\<close> admits no NaN)
  and, for the merge key, its string form.
\<close>

datatype 'a field = Undefined | Null | Val 'a

datatype visa = Yes | No

record 'n ParsedOffer =
  company :: "string field"
  role :: "string field"
  yoe :: "'n field"
  base_offer :: "'n field"
  total_offer :: "'n field"
  location :: "string field"
  visa_sponsorship :: "visa field"

text \<open>JavaScript truthiness (\<^verbatim>\<open>!!x\<close>) of an optional string and of an optional number.\<close>

fun truthy_str :: "string field \<Rightarrow> bool" where
  "truthy_str (Val s) = (s \<noteq> [])"
| "truthy_str _ = False"

fun truthy_num :: "('n::zero) field \<Rightarrow> bool" where
  "truthy_num (Val n) = (n \<noteq> 0)"
| "truthy_num _ = False"

text \<open>
  \<^verbatim>\<open>isValidOffer\<close>: \<^verbatim>\<open>hasCompany = !!offer.company\<close>,
  \<^verbatim>\<open>hasCompensation = !!(offer.base_offer || offer.total_offer)\<close>; the result is
  \<^verbatim>\<open>hasCompany || hasCompensation\<close>. The value of \<^verbatim>\<open>a || b\<close> is truthy exactly when
  one of the two is.
\<close>

definition hasCompany :: "('n, 'z) ParsedOffer_scheme \<Rightarrow> bool" where
  "hasCompany offer = truthy_str (company offer)"

definition hasCompensation :: "('n::zero, 'z) ParsedOffer_scheme \<Rightarrow> bool" where
  "hasCompensation offer = (truthy_num (base_offer offer) \<or> truthy_num (total_offer offer))"

definition isValidOffer :: "('n::zero, 'z) ParsedOffer_scheme \<Rightarrow> bool" where
  "isValidOffer offer = (hasCompany offer \<or> hasCompensation offer)"


section \<open>Extraction client of the \<^verbatim>\<open>leetcomp\<close> package (\<^verbatim>\<open>parse.ts\<close>, Gemini SDK)\<close>

text \<open>
  What the model's text turns into after \<^verbatim>\<open>parseJsonMarkdown\<close> and
  \<^verbatim>\<open>ParsedContentSchema.safeParse\<close>: no fenced block, unparsable or falsy JSON
  (\<open>Unparsable\<close>), JSON of the wrong shape (\<open>Invalid\<close>), or an array of offers.
\<close>

datatype 'n model_text = Unparsable | Invalid | OfferArray "'n ParsedOffer list"

text \<open>Lines 80 to 98 of \<^verbatim>\<open>parsePost\<close>: the result once the model has answered.\<close>

definition validOffers :: "('n::zero) model_text \<Rightarrow> 'n ParsedOffer list option" where
  "validOffers t =
     (case t of
        Unparsable \<Rightarrow> None
      | Invalid \<Rightarrow> None
      | OfferArray data \<Rightarrow>
          (let valid = filter isValidOffer data
           in if length valid = 0 then None else Some valid))"

text \<open>
  The error the SDK throws: \<^verbatim>\<open>error.status\<close> and \<^verbatim>\<open>error.errorDetails\<close>, a list of
  details with a \<^verbatim>\<open>"@type"\<close> and, for \<^verbatim>\<open>RetryInfo\<close>, a \<^verbatim>\<open>retryDelay\<close> such as
  \<^verbatim>\<open>"34s"\<close>. An exception of another kind (a missing API key in \<^verbatim>\<open>getModel\<close>, a network
  failure) has neither field.
\<close>

record ErrorDetail =
  type_url :: string
  retryDelay :: "string option"

record GenerativeError =
  status :: "nat option"
  errorDetails :: "ErrorDetail list option"

datatype 'n attempt = GenThrew GenerativeError | GenText "'n model_text"

definition RetryInfo :: string where
  "RetryInfo = ''type.googleapis.com/google.rpc.RetryInfo''"

definition QuotaFailure :: string where
  "QuotaFailure = ''type.googleapis.com/google.rpc.QuotaFailure''"

definition QUOTA_EXCEEDED :: string where
  "QUOTA_EXCEEDED = ''QUOTA_EXCEEDED''"

text \<open>\<^verbatim>\<open>error.errorDetails?.find(detail => detail["@type"] === t)\<close>\<close>

definition findDetail :: "string \<Rightarrow> GenerativeError \<Rightarrow> ErrorDetail option" where
  "findDetail t e =
     (case errorDetails e of None \<Rightarrow> None | Some ds \<Rightarrow> find (\<lambda>detail. type_url detail = t) ds)"

text \<open>
  \<^verbatim>\<open>delaySeconds = retryDelay ? parseFloat(retryDelay.replace("s", "")) : Math.pow(2, retryCount) * 2\<close>.
  An empty \<^verbatim>\<open>retryDelay\<close> is falsy. \<^verbatim>\<open>parseFloat\<close> is the JavaScript built-in, a
  parameter here; \<open>None\<close> is NaN.
\<close>

definition delaySeconds ::
  "(string \<Rightarrow> 'n option) \<Rightarrow> GenerativeError \<Rightarrow> nat \<Rightarrow> ('n::comm_semiring_1) option" where
  "delaySeconds parseFloat e retryCount =
     (case Option.bind (findDetail RetryInfo e) retryDelay of
        Some d \<Rightarrow> if d \<noteq> [] then parseFloat (remove1 (CHR ''s'') d) else Some (2 ^ retryCount * 2)
      | None \<Rightarrow> Some (2 ^ retryCount * 2))"

text \<open>
  \<^verbatim>\<open>parsePost(post, retryCount)\<close>. The post goes into the prompt and nowhere else, so
  the answers of the model stand for it: \<open>gen k\<close> is what the model call does on the
  attempt made with \<^verbatim>\<open>retryCount = k\<close>. The result is the value returned (\<open>Inr\<close>; \<open>None\<close>
  is \<^verbatim>\<open>null\<close>) or the message of the error thrown (\<open>Inl\<close>), with the arguments of the
  \<^verbatim>\<open>sleep\<close> calls made, in milliseconds and in order.
\<close>

function parsePost ::
  "(string \<Rightarrow> 'n option) \<Rightarrow> (nat \<Rightarrow> 'n attempt) \<Rightarrow> nat \<Rightarrow>
     (string + ('n::comm_semiring_1) ParsedOffer list option) \<times> 'n option list" where
  "parsePost parseFloat gen retryCount =
     (case gen retryCount of
        GenText t \<Rightarrow> (Inr (validOffers t), [])
      | GenThrew e \<Rightarrow>
          if status e = Some 429 then
            if findDetail QuotaFailure e \<noteq> None \<and> retryCount = 0 then (Inl QUOTA_EXCEEDED, [])
            else if retryCount < 3 then
              apsnd ((#) (map_option (\<lambda>d. d * 1000) (delaySeconds parseFloat e retryCount)))
                (parsePost parseFloat gen (retryCount + 1))
            else (Inr None, [])
          else (Inr None, []))"
  by pat_completeness auto
termination
  by (relation "measure (\<lambda>(parseFloat, gen, retryCount). 3 - retryCount)") auto

declare parsePost.simps [simp del]


section \<open>Extraction client of the \<^verbatim>\<open>leetoffer\<close> package (\<^verbatim>\<open>parse.ts\<close>, Perplexity over \<^verbatim>\<open>fetch\<close>)\<close>

text \<open>Decimal digits of a natural number, for \<^verbatim>\<open>`HTTP ${response.status}`\<close>.\<close>

definition digitChar :: "nat \<Rightarrow> char" where
  "digitChar d = ''0123456789'' ! d"

fun decimal :: "nat \<Rightarrow> string" where
  "decimal n =
     (if n < 10 then [digitChar n] else decimal (n div 10) @ [digitChar (n mod 10)])"

declare decimal.simps [simp del]

text \<open>\<^verbatim>\<open>a || b\<close> where \<open>a\<close> is a string or \<^verbatim>\<open>undefined\<close>: \<open>a\<close> when it is truthy.\<close>

definition orElse :: "string option \<Rightarrow> string \<Rightarrow> string" where
  "orElse a b = (case a of Some s \<Rightarrow> if s \<noteq> [] then s else b | None \<Rightarrow> b)"

text \<open>\<^verbatim>\<open>s.includes(t)\<close>\<close>

fun str_includes :: "string \<Rightarrow> string \<Rightarrow> bool" where
  "str_includes [] t = (t = [])"
| "str_includes (c # cs) t = (take (length t) (c # cs) = t \<or> str_includes cs t)"

text \<open>
  The body of a response that is not \<^verbatim>\<open>ok\<close>, as lines 122 to 130 read it: a text that
  is not JSON (the empty string when reading the text fails), giving
  \<^verbatim>\<open>{ message: errorText || `HTTP ${status}` }\<close>; the JSON value \<^verbatim>\<open>null\<close>, on which
  \<^verbatim>\<open>errorData.error\<close> throws a \<^verbatim>\<open>TypeError\<close>, with the message the engine gives that
  error; or another JSON value, with its text, its \<^verbatim>\<open>error?.message\<close> and its
  \<^verbatim>\<open>message\<close>.
\<close>

datatype error_body =
  NotJson string | JsonNull string | Json string "string option" "string option"

text \<open>
  One attempt of the request, lines 91 to 153: \<^verbatim>\<open>fetch\<close> rejects, the response is not
  \<^verbatim>\<open>ok\<close>, its body is not JSON, it has no \<^verbatim>\<open>choices\<close>, the content of the first choice is
  empty, or there is a text.
\<close>

datatype 'n http_attempt =
    FetchRejected string
  | NotOk nat error_body
  | JsonRejected string
  | NoChoices
  | EmptyContent
  | Content "'n model_text"

text \<open>
  An \<^verbatim>\<open>Error\<close> object as the \<^verbatim>\<open>catch\<close> block reads it: \<^verbatim>\<open>message\<close>, \<^verbatim>\<open>status\<close> and
  \<^verbatim>\<open>errorDetails.error?.message\<close>. \<^verbatim>\<open>new Error(msg)\<close> sets the message only.
\<close>

record JsError =
  message :: string
  error_status :: "nat option"
  details_error_message :: "string option"

definition new_Error :: "string \<Rightarrow> JsError" where
  "new_Error msg = \<lparr>message = msg, error_status = None, details_error_message = None\<rparr>"

text \<open>\<^verbatim>\<open>getApiKey()\<close> followed by the length check of lines 92 to 95.\<close>

definition checkApiKey :: "string option \<Rightarrow> JsError option" where
  "checkApiKey apiKey =
     (case apiKey of
        None \<Rightarrow> Some (new_Error
          ''PERPLEXITY_API_KEY environment variable is required. Please set it in your .env file.'')
      | Some k \<Rightarrow>
          if k = [] then Some (new_Error
            ''PERPLEXITY_API_KEY environment variable is required. Please set it in your .env file.'')
          else if length k < 10 then Some (new_Error ''Invalid API key: API key is missing or too short'')
          else None)"

text \<open>
  The message of the error that lines 118 to 131 throw:
  \<^verbatim>\<open>errorData.error?.message || errorData.message || `HTTP ${response.status}: ${errorText.substring(0, 100)}`\<close>,
  or the message of the \<^verbatim>\<open>TypeError\<close>.
\<close>

definition errorMsg :: "nat \<Rightarrow> error_body \<Rightarrow> string" where
  "errorMsg st body =
     (case body of
        NotJson errorText \<Rightarrow>
          orElse (Some (orElse (Some errorText) (''HTTP '' @ decimal st)))
            (''HTTP '' @ decimal st @ '': '' @ take 100 errorText)
      | JsonNull typeError \<Rightarrow> typeError
      | Json errorText error_message msg \<Rightarrow>
          orElse error_message (orElse msg (''HTTP '' @ decimal st @ '': '' @ take 100 errorText)))"

text \<open>The \<^verbatim>\<open>try\<close> block: \<open>Inl\<close> is the error it throws, \<open>Inr\<close> the value it returns.\<close>

definition tryBlock ::
  "string option \<Rightarrow> ('n::zero) http_attempt \<Rightarrow> JsError + 'n ParsedOffer list option" where
  "tryBlock apiKey a =
     (case checkApiKey apiKey of
        Some e \<Rightarrow> Inl e
      | None \<Rightarrow>
          (case a of
             FetchRejected m \<Rightarrow> Inl (new_Error (''Network error: '' @ m))
           | NotOk st body \<Rightarrow> Inl (new_Error (errorMsg st body))
           | JsonRejected m \<Rightarrow> Inl (new_Error (''Failed to parse API response: '' @ m))
           | NoChoices \<Rightarrow> Inr None
           | EmptyContent \<Rightarrow> Inr None
           | Content t \<Rightarrow> Inr (validOffers t)))"

text \<open>
  \<^verbatim>\<open>parsePost(post, retryCount)\<close> of the \<^verbatim>\<open>leetoffer\<close> package. Every value the \<^verbatim>\<open>try\<close>
  block throws is an \<^verbatim>\<open>Error\<close>, so the \<^verbatim>\<open>catch\<close> block takes \<^verbatim>\<open>errorObj = error\<close>.
  \<open>fetch k\<close> is the outcome of the request made with \<^verbatim>\<open>retryCount = k\<close>.
\<close>

function leetoffer_parsePost ::
  "string option \<Rightarrow> (nat \<Rightarrow> 'n http_attempt) \<Rightarrow> nat \<Rightarrow>
     (string + ('n::comm_semiring_1) ParsedOffer list option) \<times> 'n list" where
  "leetoffer_parsePost apiKey fetch retryCount =
     (case tryBlock apiKey (fetch retryCount) of
        Inr r \<Rightarrow> (Inr r, [])
      | Inl errorObj \<Rightarrow>
          if error_status errorObj = Some 429 then
            (let delaySeconds = 2 ^ retryCount * 2;
                 errorMessage = orElse (details_error_message errorObj) (orElse (Some (message errorObj)) [])
             in if (str_includes errorMessage ''quota'' \<or> str_includes errorMessage ''limit''
                      \<or> str_includes errorMessage ''rate limit'') \<and> retryCount = 0
                then (Inl QUOTA_EXCEEDED, [])
                else if retryCount < 3 then
                  apsnd ((#) (delaySeconds * 1000)) (leetoffer_parsePost apiKey fetch (retryCount + 1))
                else (Inr None, []))
          else (Inr None, []))"
  by pat_completeness auto
termination
  by (relation "measure (\<lambda>(apiKey, fetch, retryCount). 3 - retryCount)") auto

declare leetoffer_parsePost.simps [simp del]


section \<open>Post source client (\<^verbatim>\<open>refresh.ts\<close>)\<close>

record LeetCodePost =
  id' :: string
  title :: string
  content :: string
  vote_count :: int
  comment_count :: int
  view_count :: int
  creation_date :: int

text \<open>
  An edge of \<^verbatim>\<open>categoryTopicList.edges\<close>: \<^verbatim>\<open>node.id\<close>, \<^verbatim>\<open>node.title\<close>,
  \<^verbatim>\<open>node.post.voteCount\<close>, \<^verbatim>\<open>node.commentCount\<close>, \<^verbatim>\<open>node.viewCount\<close> and
  \<^verbatim>\<open>node.post.creationDate\<close> (seconds).
\<close>

record Edge =
  node_id :: string
  node_title :: string
  voteCount :: int
  commentCount :: int
  viewCount :: int
  creationDate :: int

text \<open>
  \<^verbatim>\<open>parseInt(s, 10)\<close>: leading white space is skipped, a sign is read, then the longest
  run of decimal digits; \<open>None\<close> is NaN (no digit). A \<open>char\<close> stands for a code unit below
  256, so the white space of JavaScript is the tab, the four line and page breaks, the
  space and the no-break space U+00A0; the Unicode spaces from U+1680 on are no
  characters of these strings. Integers are unbounded here; the rounding of JavaScript
  numbers above \<open>2^53\<close> is not modelled.
\<close>

fun indexOf :: "'a \<Rightarrow> 'a list \<Rightarrow> nat option" where
  "indexOf x [] = None"
| "indexOf x (y # ys) = (if x = y then Some 0 else map_option Suc (indexOf x ys))"

definition digitValue :: "char \<Rightarrow> nat option" where
  "digitValue c = indexOf c ''0123456789''"

definition isWhiteSpace :: "char \<Rightarrow> bool" where
  "isWhiteSpace c =
     (c \<in> set [CHR 0x09, CHR 0x0A, CHR 0x0B, CHR 0x0C, CHR 0x0D, CHR '' '', CHR 0xA0])"

fun readDigits :: "nat \<Rightarrow> string \<Rightarrow> nat" where
  "readDigits acc [] = acc"
| "readDigits acc (c # cs) =
     (case digitValue c of None \<Rightarrow> acc | Some d \<Rightarrow> readDigits (acc * 10 + d) cs)"

definition unsignedInt :: "string \<Rightarrow> nat option" where
  "unsignedInt s =
     (case s of
        [] \<Rightarrow> None
      | c # cs \<Rightarrow> (case digitValue c of None \<Rightarrow> None | Some d \<Rightarrow> Some (readDigits 0 s)))"

definition parseInt :: "string \<Rightarrow> int option" where
  "parseInt s =
     (case dropWhile isWhiteSpace s of
        [] \<Rightarrow> None
      | c # cs \<Rightarrow>
          if c = CHR ''-'' then map_option (\<lambda>n. - int n) (unsignedInt cs)
          else if c = CHR ''+'' then map_option int (unsignedInt cs)
          else map_option int (unsignedInt (c # cs)))"

text \<open>\<^verbatim>\<open>a <= b\<close> on numbers: false when either side is NaN.\<close>

fun js_le :: "int option \<Rightarrow> int option \<Rightarrow> bool" where
  "js_le (Some a) (Some b) = (a \<le> b)"
| "js_le _ _ = False"

text \<open>
  The remote forum. \<open>Failed\<close> is a request that throws (\<^verbatim>\<open>request\<close> or \<^verbatim>\<open>body.json()\<close>).
  \<open>listPage skip\<close> is \<^verbatim>\<open>data.data?.categoryTopicList?.edges\<close> of the listing fetched at
  that offset (\<open>None\<close> when it is missing), \<open>topicContent n\<close> is
  \<^verbatim>\<open>data.data?.topic?.post?.content\<close> for \<^verbatim>\<open>topicId = n\<close>.
\<close>

datatype 'a response = Failed | Data 'a

record forum =
  listPage :: "nat \<Rightarrow> Edge list option response"
  topicContent :: "int option \<Rightarrow> string option response"

text \<open>\<^verbatim>\<open>getPostContent\<close>: \<open>None\<close> when it throws (the request fails, or no content).\<close>

definition getPostContent :: "forum \<Rightarrow> int option \<Rightarrow> string option" where
  "getPostContent F postId =
     (case topicContent F postId of
        Failed \<Rightarrow> None
      | Data None \<Rightarrow> None
      | Data (Some c) \<Rightarrow> if c = [] then None else Some c)"

text \<open>The variables of \<^verbatim>\<open>getLatestPosts\<close> that the loop over one page changes.\<close>

record scan =
  totalFetched :: nat
  postsProcessed :: nat
  foundLastPost :: bool
  yielded :: "LeetCodePost list"

definition toPost :: "Edge \<Rightarrow> string \<Rightarrow> LeetCodePost" where
  "toPost e c =
     \<lparr>id' = node_id e, title = node_title e, content = c, vote_count = voteCount e,
      comment_count = commentCount e, view_count = viewCount e,
      creation_date = creationDate e * 1000\<rparr>"

text \<open>\<^verbatim>\<open>!!lastPostId\<close>: the cursor is there and is not the empty string.\<close>

definition hasCursor :: "string option \<Rightarrow> bool" where
  "hasCursor lastPostId = (case lastPostId of None \<Rightarrow> False | Some l \<Rightarrow> l \<noteq> [])"

text \<open>
  Lines 78 to 84: \<^verbatim>\<open>lastPostId\<close> is truthy and
  \<^verbatim>\<open>parseInt(post.node.id, 10) <= parseInt(lastPostId, 10)\<close>.
\<close>

definition caughtUp :: "string option \<Rightarrow> Edge \<Rightarrow> bool" where
  "caughtUp lastPostId post =
     (case lastPostId of
        None \<Rightarrow> False
      | Some l \<Rightarrow> l \<noteq> [] \<and> js_le (parseInt (node_id post)) (parseInt l))"

text \<open>\<^verbatim>\<open>for (const post of posts)\<close>, lines 70 to 110.\<close>

fun pageLoop :: "forum \<Rightarrow> string option \<Rightarrow> nat \<Rightarrow> scan \<Rightarrow> Edge list \<Rightarrow> scan" where
  "pageLoop F lastPostId MAX_POSTS st [] = st"
| "pageLoop F lastPostId MAX_POSTS st (post # posts) =
     (if totalFetched st \<ge> MAX_POSTS then st
      else if caughtUp lastPostId post then st\<lparr>foundLastPost := True\<rparr>
      else
        (case getPostContent F (parseInt (node_id post)) of
           Some c \<Rightarrow>
             pageLoop F lastPostId MAX_POSTS
               (st\<lparr>totalFetched := totalFetched st + 1, postsProcessed := postsProcessed st + 1,
                   yielded := yielded st @ [toPost post c]\<rparr>) posts
         | None \<Rightarrow> pageLoop F lastPostId MAX_POSTS st posts))"

lemma pageLoop_totalFetched:
  "totalFetched (pageLoop F l M st es) + postsProcessed st
     = totalFetched st + postsProcessed (pageLoop F l M st es)"
proof (induction es arbitrary: st)
  case Nil
  show ?case by simp
next
  case (Cons e es)
  show ?case
  proof (cases "getPostContent F (parseInt (node_id e))")
    case None
    with Cons [of st] show ?thesis by simp
  next
    case (Some c)
    with Cons [of "st\<lparr>totalFetched := totalFetched st + 1, postsProcessed := postsProcessed st + 1,
                     yielded := yielded st @ [toPost e c]\<rparr>"]
    show ?thesis by simp
  qed
qed

definition first :: nat where
  "first = 50"

text \<open>
  \<^verbatim>\<open>while (totalFetched < MAX_POSTS && !foundLastPost)\<close>, lines 40 to 131. The result is
  the posts yielded, in order, and whether the generator ended by throwing (a listing
  request failed). The pause after every fourth page changes no variable.
\<close>

function whileLoop ::
  "forum \<Rightarrow> string option \<Rightarrow> nat \<Rightarrow> nat \<Rightarrow> scan \<Rightarrow> LeetCodePost list \<times> bool" where
  "whileLoop F lastPostId MAX_POSTS skip st =
     (if totalFetched st < MAX_POSTS \<and> \<not> foundLastPost st then
        (case listPage F skip of
           Failed \<Rightarrow> (yielded st, True)
         | Data None \<Rightarrow> (yielded st, False)
         | Data (Some posts) \<Rightarrow>
             if length posts = 0 then (yielded st, False)
             else
               (let originalPostCount = length posts;
                    st' = pageLoop F lastPostId MAX_POSTS (st\<lparr>postsProcessed := 0\<rparr>)
                            (if skip = 0 then tl posts else posts)
                in if originalPostCount < first \<or> (postsProcessed st' = 0 \<and> originalPostCount > 0)
                   then (yielded st', False)
                   else whileLoop F lastPostId MAX_POSTS (skip + first) st'))
      else (yielded st, False))"
  by pat_completeness auto
termination
proof (relation "measure (\<lambda>(F, lastPostId, MAX_POSTS, skip, st). MAX_POSTS - totalFetched st)")
  show "wf (measure (\<lambda>(F, lastPostId, MAX_POSTS, skip, st). MAX_POSTS - totalFetched st))"
    by simp
next
  fix F :: forum and lastPostId :: "string option" and MAX_POSTS skip :: nat
    and st xb :: scan and x2b :: "Edge list" and xa :: nat
  assume run: "totalFetched st < MAX_POSTS \<and> \<not> foundLastPost st"
    and xb: "xb = pageLoop F lastPostId MAX_POSTS (st\<lparr>postsProcessed := 0\<rparr>)
                    (if skip = 0 then tl x2b else x2b)"
    and go: "\<not> (xa < first \<or> postsProcessed xb = 0 \<and> 0 < xa)"
    and xa: "xa = length x2b" and ne: "length x2b \<noteq> 0"
  from go xa ne have "postsProcessed xb \<noteq> 0" by simp
  moreover have "totalFetched xb = totalFetched st + postsProcessed xb"
    using pageLoop_totalFetched [of F lastPostId MAX_POSTS "st\<lparr>postsProcessed := 0\<rparr>"] xb by simp
  ultimately show "((F, lastPostId, MAX_POSTS, skip + first, xb), (F, lastPostId, MAX_POSTS, skip, st))
      \<in> measure (\<lambda>(F, lastPostId, MAX_POSTS, skip, st). MAX_POSTS - totalFetched st)"
    using run by auto
qed

declare whileLoop.simps [simp del]

definition getLatestPosts :: "forum \<Rightarrow> string option \<Rightarrow> nat \<Rightarrow> LeetCodePost list \<times> bool" where
  "getLatestPosts F lastPostId maxPosts =
     whileLoop F lastPostId maxPosts 0
       \<lparr>totalFetched = 0, postsProcessed = 0, foundLastPost = False, yielded = []\<rparr>"


section \<open>Orchestrator of the \<^verbatim>\<open>leetoffer\<close> package (\<^verbatim>\<open>index.ts\<close>)\<close>

subsection \<open>Stored offers and the merge\<close>

text \<open>
  \<^verbatim>\<open>interface ParsedOffer\<close> of \<^verbatim>\<open>index.ts\<close>: the fields of the extraction client's offer
  and the four provenance fields. Offers read back from the dataset file are whatever the
  JSON holds, so a field may also be absent there.
\<close>

record 'n Offer = "'n ParsedOffer" +
  post_id :: "string field"
  post_title :: "string field"
  post_date :: "string field"
  post_timestamp :: "int field"

text \<open>\<^verbatim>\<open>`${x}`\<close> for an optional string and an optional number.\<close>

fun template_str :: "string field \<Rightarrow> string" where
  "template_str Undefined = ''undefined''"
| "template_str Null = ''null''"
| "template_str (Val s) = s"

fun template_num :: "('n \<Rightarrow> string) \<Rightarrow> 'n field \<Rightarrow> string" where
  "template_num toString Undefined = ''undefined''"
| "template_num toString Null = ''null''"
| "template_num toString (Val n) = toString n"

text \<open>
  \<^verbatim>\<open>`${offer.company}-${offer.role}-${offer.total_offer}-${offer.post_id}`\<close>, with the
  string form of a number (\<^verbatim>\<open>Number.prototype.toString\<close>) as the parameter \<open>toString\<close>.
\<close>

definition offerKey :: "('n \<Rightarrow> string) \<Rightarrow> 'n Offer \<Rightarrow> string" where
  "offerKey toString offer =
     template_str (company offer) @ ''-'' @ template_str (role offer) @ ''-''
       @ template_num toString (total_offer offer) @ ''-'' @ template_str (post_id offer)"

text \<open>
  Lines 522 to 535 of \<^verbatim>\<open>run\<close>, and the same three statements in \<^verbatim>\<open>saveOnExit\<close>
  (lines 404 to 414).
\<close>

definition existingOfferKeys :: "('n \<Rightarrow> string) \<Rightarrow> 'n Offer list \<Rightarrow> string set" where
  "existingOfferKeys toString existingOffers = set (map (offerKey toString) existingOffers)"

definition uniqueNewOffers ::
  "('n \<Rightarrow> string) \<Rightarrow> 'n Offer list \<Rightarrow> 'n Offer list \<Rightarrow> 'n Offer list" where
  "uniqueNewOffers toString existingOffers newParsedOffers =
     filter (\<lambda>offer. offerKey toString offer \<notin> existingOfferKeys toString existingOffers)
       newParsedOffers"

definition allOffers ::
  "('n \<Rightarrow> string) \<Rightarrow> 'n Offer list \<Rightarrow> 'n Offer list \<Rightarrow> 'n Offer list" where
  "allOffers toString existingOffers newParsedOffers =
     existingOffers @ uniqueNewOffers toString existingOffers newParsedOffers"

text \<open>The four fields the key is built from, as values.\<close>

definition keyFields :: "'n Offer \<Rightarrow> string field \<times> string field \<times> 'n field \<times> string field" where
  "keyFields offer = (company offer, role offer, total_offer offer, post_id offer)"


subsection \<open>\<^verbatim>\<open>saveData\<close>\<close>

text \<open>
  The cursor record written by lines 312 to 316, and the two kinds of file the pipeline
  writes (\<^verbatim>\<open>JSON.stringify\<close> of the offers, of the cursor record).
\<close>

record metadata =
  lastPostId :: string
  lastFetchTime :: int
  totalOffers :: nat

datatype 'n json_file = OffersJson "'n Offer list" | MetadataJson metadata

text \<open>
  The local files by path, and the files of the backup Gist by name.
\<close>

record 'n store =
  localFiles :: "string \<rightharpoonup> 'n json_file"
  gistFiles :: "string \<rightharpoonup> 'n json_file"

text \<open>
  What \<^verbatim>\<open>saveData\<close> meets outside the program: whether creating the directory of a path
  and writing the file there succeed; whether \<^verbatim>\<open>GIST_ID\<close> and \<^verbatim>\<open>GITHUB_TOKEN\<close> are
  both set; whether the checks and the \<^verbatim>\<open>PATCH\<close> of lines 197 to 299 all go through;
  whether the \<^verbatim>\<open>PATCH\<close> of the cursor (lines 338 to 352) reaches the Gist; and the two
  readings of \<^verbatim>\<open>Date.now()\<close>.
\<close>

record outside =
  writable :: "string \<Rightarrow> bool"
  gistConfigured :: bool
  gistOffersPatched :: bool
  gistMetadataPatched :: bool
  now :: int
  nowGist :: int

text \<open>Lines 172 to 188: a failure is caught and logged.\<close>

definition saveOffersFile :: "outside \<Rightarrow> 'n Offer list \<Rightarrow> string \<Rightarrow> 'n store \<Rightarrow> 'n store" where
  "saveOffersFile w offers outputPath st =
     (if writable w outputPath
      then st\<lparr>localFiles := (localFiles st)(outputPath \<mapsto> OffersJson offers)\<rparr>
      else st)"

text \<open>
  Lines 191 to 308: every failure is caught and logged. Only the file the \<^verbatim>\<open>PATCH\<close> gives
  a content to is recorded; what the Gist does with the other names in the request is
  left out.
\<close>

definition saveOffersGist :: "outside \<Rightarrow> 'n Offer list \<Rightarrow> 'n store \<Rightarrow> 'n store" where
  "saveOffersGist w offers st =
     (if gistConfigured w \<and> gistOffersPatched w
      then st\<lparr>gistFiles := (gistFiles st)(''parsed_comps.json'' \<mapsto> OffersJson offers)\<rparr>
      else st)"

text \<open>Lines 311 to 357, run when \<^verbatim>\<open>lastFetchedPostId\<close> is truthy.\<close>

definition saveMetadata ::
  "outside \<Rightarrow> 'n Offer list \<Rightarrow> string \<Rightarrow> string \<Rightarrow> 'n store \<Rightarrow> 'n store" where
  "saveMetadata w offers metadataPath postId st =
     (let st1 =
            (if writable w metadataPath
             then st\<lparr>localFiles := (localFiles st)(metadataPath \<mapsto>
                    MetadataJson \<lparr>lastPostId = postId, lastFetchTime = now w,
                                  totalOffers = length offers\<rparr>)\<rparr>
             else st)
      in if gistConfigured w \<and> gistMetadataPatched w
         then st1\<lparr>gistFiles := (gistFiles st1)(''.leetoffer_metadata.json'' \<mapsto>
                MetadataJson \<lparr>lastPostId = postId, lastFetchTime = nowGist w,
                              totalOffers = length offers\<rparr>)\<rparr>
         else st1)"

definition saveData ::
  "outside \<Rightarrow> 'n Offer list \<Rightarrow> string \<Rightarrow> string \<Rightarrow> string option \<Rightarrow> 'n store \<Rightarrow> 'n store" where
  "saveData w offers outputPath metadataPath lastFetchedPostId st =
     (let st1 = saveOffersGist w offers (saveOffersFile w offers outputPath st)
      in case lastFetchedPostId of
           None \<Rightarrow> st1
         | Some postId \<Rightarrow> if postId \<noteq> [] then saveMetadata w offers metadataPath postId st1 else st1)"


subsection \<open>The save step of the \<^verbatim>\<open>leetcomp\<close> orchestrator\<close>

text \<open>
  The end of \<^verbatim>\<open>run\<close> in \<^verbatim>\<open>index.ts\<close> of the \<^verbatim>\<open>leetcomp\<close> package: the directory of the
  dataset file is checked and the file written outside any \<^verbatim>\<open>try\<close>, so a failure there
  ends \<^verbatim>\<open>run\<close> with the error before the cursor is reached. Here \<open>writable\<close> of a path
  says that its directory exists and the write succeeds. The result is the files and
  whether \<^verbatim>\<open>run\<close> ended with an error.
\<close>

definition leetcomp_save ::
  "outside \<Rightarrow> 'n Offer list \<Rightarrow> string \<Rightarrow> string \<Rightarrow> string option \<Rightarrow> 'n store \<Rightarrow> 'n store \<times> bool" where
  "leetcomp_save w offers outputPath metadataPath lastFetchedPostId st =
     (if \<not> writable w outputPath then (st, True)
      else
        (let st1 = st\<lparr>localFiles := (localFiles st)(outputPath \<mapsto> OffersJson offers)\<rparr>
         in case lastFetchedPostId of
              None \<Rightarrow> (st1, False)
            | Some postId \<Rightarrow>
                if postId = [] then (st1, False)
                else if writable w metadataPath then
                  (st1\<lparr>localFiles := (localFiles st1)(metadataPath \<mapsto>
                       MetadataJson \<lparr>lastPostId = postId, lastFetchTime = now w,
                                     totalOffers = length offers\<rparr>)\<rparr>, False)
                else (st1, True)))"

subsection \<open>The loop of \<^verbatim>\<open>run\<close>\<close>

text \<open>
  The variables of \<^verbatim>\<open>run\<close> declared at lines 385 to 389. \<open>calls\<close> is not a variable of
  the program: it lists the posts handed to \<^verbatim>\<open>parsePost\<close>, in order.
\<close>

record 'n progress =
  newParsedOffers :: "'n Offer list"
  processedCount :: nat
  successCount :: nat
  lastFetchedPostId :: "string option"
  apiCallCount :: nat
  calls :: "LeetCodePost list"

definition MAX_DAILY_API_CALLS :: nat where
  "MAX_DAILY_API_CALLS = 240"

text \<open>\<^verbatim>\<open>x ?? null\<close>\<close>

fun orNull :: "'a field \<Rightarrow> 'a field" where
  "orNull (Val v) = Val v"
| "orNull _ = Null"

text \<open>
  A \<^verbatim>\<open>Date\<close> holds a time of at most 8.64e15 milliseconds either side of the epoch; beyond
  that it is an Invalid Date, and \<^verbatim>\<open>toISOString()\<close> throws a \<^verbatim>\<open>RangeError\<close> on it.
\<close>

definition validDate :: "int \<Rightarrow> bool" where
  "validDate t = (- 8640000000000000 \<le> t \<and> t \<le> 8640000000000000)"

text \<open>
  Lines 472 to 487. \<open>isoDate\<close> is \<^verbatim>\<open>toISOString().split("T")[0]\<close> of the valid date with
  the given epoch milliseconds.
\<close>

definition withMetadata :: "(int \<Rightarrow> string) \<Rightarrow> LeetCodePost \<Rightarrow> 'n ParsedOffer \<Rightarrow> 'n Offer" where
  "withMetadata isoDate post offer =
     \<lparr>company = orNull (company offer), role = orNull (role offer), yoe = orNull (yoe offer),
      base_offer = orNull (base_offer offer), total_offer = orNull (total_offer offer),
      location = orNull (location offer), visa_sponsorship = orNull (visa_sponsorship offer),
      post_id = Val (id' post), post_title = Val (title post),
      post_date = Val (isoDate (creation_date post)), post_timestamp = Val (creation_date post)\<rparr>"

text \<open>
  \<^verbatim>\<open>for await (const post of getLatestPosts(...))\<close>, lines 430 to 508. \<open>parse k post\<close> is
  what \<^verbatim>\<open>parsePost(post)\<close> does when \<open>k\<close> calls were made before it: the value
  returned or the message of the error thrown. When the post's date is invalid, line 472
  throws after \<^verbatim>\<open>successCount++\<close>; the \<^verbatim>\<open>catch\<close> of line 494 takes the error, which is
  not \<^verbatim>\<open>QUOTA_EXCEEDED\<close>, and the loop goes on without the post's offers. The pauses
  between calls change no variable.
\<close>

fun forAwait ::
  "(int \<Rightarrow> string) \<Rightarrow> (nat \<Rightarrow> LeetCodePost \<Rightarrow> string + 'n ParsedOffer list option) \<Rightarrow>
     'n progress \<Rightarrow> LeetCodePost list \<Rightarrow> 'n progress" where
  "forAwait isoDate parse s [] = s"
| "forAwait isoDate parse s (post # posts) =
     (if apiCallCount s \<ge> MAX_DAILY_API_CALLS then s
      else
        (let s1 = s\<lparr>processedCount := processedCount s + 1, lastFetchedPostId := Some (id' post)\<rparr>
         in if vote_count post < 0 then forAwait isoDate parse s1 posts
            else
              (let s2 = s1\<lparr>apiCallCount := apiCallCount s1 + 1, calls := calls s1 @ [post]\<rparr>
               in case parse (apiCallCount s1) post of
                    Inr parsedOffers \<Rightarrow>
                      (case parsedOffers of
                         None \<Rightarrow> forAwait isoDate parse s2 posts
                       | Some offers \<Rightarrow>
                           if length offers > 0 then
                             (let s3 = s2\<lparr>successCount := successCount s2 + 1\<rparr>
                              in if validDate (creation_date post) then
                                   forAwait isoDate parse
                                     (s3\<lparr>newParsedOffers := newParsedOffers s3
                                           @ map (withMetadata isoDate post) offers\<rparr>) posts
                                 else forAwait isoDate parse s3 posts)
                           else forAwait isoDate parse s2 posts)
                  | Inl errorMessage \<Rightarrow>
                      if errorMessage = QUOTA_EXCEEDED then s2
                      else forAwait isoDate parse s2 posts)))"

definition initial :: "'n progress" where
  "initial = \<lparr>newParsedOffers = [], processedCount = 0, successCount = 0,
              lastFetchedPostId = None, apiCallCount = 0, calls = []\<rparr>"

text \<open>
  \<^verbatim>\<open>run\<close> from the loaded data on: \<open>existingOffers\<close> and \<open>cursor\<close> are the \<^verbatim>\<open>offers\<close> and
  \<^verbatim>\<open>lastPostId\<close> that \<^verbatim>\<open>loadExistingData\<close> returned. An error thrown by the generator is
  caught at line 509 and the run goes on to save. The result is the variables after the
  loop and the files after \<^verbatim>\<open>saveData\<close>.
\<close>

definition run ::
  "(int \<Rightarrow> string) \<Rightarrow> ('n \<Rightarrow> string) \<Rightarrow>
     (nat \<Rightarrow> LeetCodePost \<Rightarrow> string + 'n ParsedOffer list option) \<Rightarrow> forum \<Rightarrow> outside \<Rightarrow>
     string \<Rightarrow> string \<Rightarrow> 'n Offer list \<Rightarrow> string option \<Rightarrow> 'n store \<Rightarrow> 'n progress \<times> 'n store" where
  "run isoDate toString parse F w outputPath metadataPath existingOffers cursor st =
     (let isIncremental = hasCursor cursor;
          posts = fst (getLatestPosts F cursor (if isIncremental then 500 else 2000));
          s = forAwait isoDate parse initial posts
      in (s, saveData w (allOffers toString existingOffers (newParsedOffers s))
               outputPath metadataPath (lastFetchedPostId s) st))"

text \<open>
  \<^verbatim>\<open>saveOnExit\<close>, lines 397 to 422: on an interrupt with the loop's variables at \<open>s\<close>.
\<close>

definition saveOnExit ::
  "('n \<Rightarrow> string) \<Rightarrow> outside \<Rightarrow> string \<Rightarrow> string \<Rightarrow> 'n Offer list \<Rightarrow> 'n progress \<Rightarrow>
     'n store \<Rightarrow> 'n store" where
  "saveOnExit toString w outputPath metadataPath existingOffers s st =
     saveData w (allOffers toString existingOffers (newParsedOffers s))
       outputPath metadataPath (lastFetchedPostId s) st"


section \<open>The validity filter\<close>

text \<open>
  The reading of the specification: a field is present when it holds a value, and an offer
  is valid when its company or one of the two compensation fields is present.
\<close>

fun present :: "'a field \<Rightarrow> bool" where
  "present (Val v) = True"
| "present _ = False"

definition spec_isValidOffer :: "('n, 'z) ParsedOffer_scheme \<Rightarrow> bool" where
  "spec_isValidOffer offer =
     (present (company offer) \<or> present (base_offer offer) \<or> present (total_offer offer))"

text \<open>Offers to try the filter on: every field \<^verbatim>\<open>null\<close>, and variations of it.\<close>

definition blank :: "int ParsedOffer" where
  "blank = \<lparr>company = Null, role = Null, yoe = Null, base_offer = Null, total_offer = Null,
            location = Null, visa_sponsorship = Null\<rparr>"

definition acme :: "int ParsedOffer" where
  "acme = blank\<lparr>company := Val ''Acme''\<rparr>"

definition zeroTotal :: "int ParsedOffer" where
  "zeroTotal = blank\<lparr>total_offer := Val 0\<rparr>"

definition allFalsy :: "int ParsedOffer" where
  "allFalsy = blank\<lparr>company := Val [], base_offer := Val 0, total_offer := Val 0\<rparr>"

lemma isValidOffer_iff:
  "isValidOffer offer \<longleftrightarrow>
     (\<exists>s. company offer = Val s \<and> s \<noteq> []) \<or> (\<exists>n. base_offer offer = Val n \<and> n \<noteq> 0)
       \<or> (\<exists>n. total_offer offer = Val n \<and> n \<noteq> 0)"
  unfolding isValidOffer_def hasCompany_def hasCompensation_def
  by (cases "company offer"; cases "base_offer offer"; cases "total_offer offer") simp_all

lemma validOffers_Some:
  "validOffers t = Some os \<Longrightarrow> x \<in> set os \<Longrightarrow> isValidOffer x"
  by (auto simp: validOffers_def Let_def split: model_text.splits if_splits)

lemma parsePost_valid:
  "parsePost pf gen k = (Inr (Some os), sl) \<Longrightarrow> x \<in> set os \<Longrightarrow> isValidOffer x"
proof (induction pf gen k arbitrary: sl rule: parsePost.induct)
  case (1 pf gen k)
  show ?case
  proof (cases "gen k")
    case (GenText t)
    with "1.prems" have "validOffers t = Some os" by (simp add: parsePost.simps)
    with "1.prems"(2) show ?thesis by (rule validOffers_Some [rotated])
  next
    case (GenThrew e)
    show ?thesis
    proof (cases "status e = Some 429 \<and> \<not> (findDetail QuotaFailure e \<noteq> None \<and> k = 0) \<and> k < 3")
      case True
      with GenThrew "1.prems"(1) obtain sl' where "parsePost pf gen (k + 1) = (Inr (Some os), sl')"
        by (subst (asm) parsePost.simps) (auto simp: apsnd_def map_prod_def split: prod.splits)
      with "1.IH" [OF GenThrew _ _ _ this "1.prems"(2)] True show ?thesis by simp
    next
      case False
      with GenThrew "1.prems"(1) show ?thesis
        by (subst (asm) parsePost.simps) (auto split: if_splits)
    qed
  qed
qed

text \<open>
  No error the \<^verbatim>\<open>try\<close> block of the \<^verbatim>\<open>leetoffer\<close> client throws has a \<^verbatim>\<open>status\<close>, so its
  \<^verbatim>\<open>catch\<close> block always takes the last branch.
\<close>

lemma tryBlock_no_status: "tryBlock apiKey a = Inl e \<Longrightarrow> error_status e = None"
  by (auto simp: tryBlock_def checkApiKey_def new_Error_def
      split: option.splits if_splits http_attempt.splits)

lemma leetoffer_parsePost_eq:
  "leetoffer_parsePost apiKey fetch k =
     (case tryBlock apiKey (fetch k) of Inr r \<Rightarrow> (Inr r, []) | Inl e \<Rightarrow> (Inr None, []))"
  by (subst leetoffer_parsePost.simps) (auto split: sum.splits dest: tryBlock_no_status)

lemma leetoffer_parsePost_valid:
  "leetoffer_parsePost apiKey fetch k = (Inr (Some os), sl) \<Longrightarrow> x \<in> set os \<Longrightarrow> isValidOffer x"
  by (auto simp: leetoffer_parsePost_eq tryBlock_def
      split: sum.splits option.splits http_attempt.splits dest: validOffers_Some)

lemma isValidOffer_withMetadata: "isValidOffer (withMetadata dt p x) = isValidOffer x"
  unfolding isValidOffer_def hasCompany_def hasCompensation_def withMetadata_def
  by (cases "company x"; cases "base_offer x"; cases "total_offer x") simp_all

lemma forAwait_valid:
  assumes parse: "\<And>k p os x. parse k p = Inr (Some os) \<Longrightarrow> x \<in> set os \<Longrightarrow> isValidOffer x"
  shows "\<forall>y \<in> set (newParsedOffers s). isValidOffer y \<Longrightarrow>
   y \<in> set (newParsedOffers (forAwait dt parse s posts)) \<Longrightarrow> isValidOffer y"
proof (induction posts arbitrary: s)
  case Nil
  then show ?case by simp
next
  case (Cons p ps)
  show ?case
  proof (cases "apiCallCount s \<ge> MAX_DAILY_API_CALLS")
    case True
    with Cons.prems show ?thesis by simp
  next
    case False
    let ?s1 = "s\<lparr>processedCount := processedCount s + 1, lastFetchedPostId := Some (id' p)\<rparr>"
    let ?s2 = "?s1\<lparr>apiCallCount := apiCallCount ?s1 + 1, calls := calls ?s1 @ [p]\<rparr>"
    show ?thesis
    proof (cases "vote_count p < 0")
      case True
      with False Cons.prems(2) have "y \<in> set (newParsedOffers (forAwait dt parse ?s1 ps))"
        by (simp add: Let_def)
      with Cons.IH [of ?s1] Cons.prems(1) show ?thesis by simp
    next
      case votes: False
      show ?thesis
      proof (cases "parse (apiCallCount s) p")
        case (Inl m)
        with False votes Cons.prems(2)
        have "y \<in> set (newParsedOffers ?s2) \<or> y \<in> set (newParsedOffers (forAwait dt parse ?s2 ps))"
          by (simp add: Let_def split: if_splits)
        with Cons.IH [of ?s2] Cons.prems(1) show ?thesis by auto
      next
        case (Inr r)
        show ?thesis
        proof (cases "\<exists>os. r = Some os \<and> length os > 0")
          case True
          then obtain os where r: "r = Some os" and ne: "length os > 0" by blast
          let ?s3 = "?s2\<lparr>successCount := successCount ?s2 + 1\<rparr>"
          let ?s4 = "?s3\<lparr>newParsedOffers := newParsedOffers ?s3 @ map (withMetadata dt p) os\<rparr>"
          show ?thesis
          proof (cases "validDate (creation_date p)")
            case True
            with False votes Inr r ne Cons.prems(2)
            have "y \<in> set (newParsedOffers (forAwait dt parse ?s4 ps))"
              by (simp add: Let_def)
            moreover have "\<forall>y \<in> set (newParsedOffers ?s4). isValidOffer y"
              using Cons.prems(1) parse [of "apiCallCount s" p os] Inr r
              by (auto simp: isValidOffer_withMetadata)
            ultimately show ?thesis using Cons.IH [of ?s4] by blast
          next
            case invalid: False
            with False votes Inr r ne Cons.prems(2)
            have "y \<in> set (newParsedOffers (forAwait dt parse ?s3 ps))"
              by (simp add: Let_def)
            with Cons.IH [of ?s3] Cons.prems(1) show ?thesis by simp
          qed
        next
          case none: False
          with False votes Inr Cons.prems(2)
          have "y \<in> set (newParsedOffers (forAwait dt parse ?s2 ps))"
            by (auto simp: Let_def split: option.splits)
          with Cons.IH [of ?s2] Cons.prems(1) show ?thesis by simp
        qed
      qed
    qed
  qed
qed

text \<open>
  C7, as the code has it. \<^verbatim>\<open>isValidOffer\<close> accepts an offer exactly when its company is a
  non-empty string or one of its base and total compensation is a number other than zero
  (the fields are tested for truthiness, not for being present). Both extraction clients
  return only offers that pass the filter, and when \<^verbatim>\<open>parsePost\<close> returns only such
  offers, every offer the loop of \<^verbatim>\<open>run\<close> accumulates passes it too.
\<close>

theorem C7_validity_filter_by_truthiness:
  fixes offer :: "('n::comm_semiring_1) ParsedOffer"
  shows "(isValidOffer offer \<longleftrightarrow>
            (\<exists>s. company offer = Val s \<and> s \<noteq> []) \<or> (\<exists>n. base_offer offer = Val n \<and> n \<noteq> 0)
              \<or> (\<exists>n. total_offer offer = Val n \<and> n \<noteq> 0))
    \<and> (\<forall>os sl. parsePost pf gen k = (Inr (Some os), sl) \<longrightarrow> (\<forall>x \<in> set os. isValidOffer x))
    \<and> (\<forall>os sl. leetoffer_parsePost apiKey fetch k = (Inr (Some os), sl)
          \<longrightarrow> (\<forall>x \<in> set os. isValidOffer x))
    \<and> ((\<forall>j p os. parse j p = Inr (Some os) \<longrightarrow> (\<forall>x \<in> set os. isValidOffer (x :: 'n ParsedOffer)))
          \<longrightarrow> (\<forall>y \<in> set (newParsedOffers (forAwait dt parse initial posts)). isValidOffer y))"
proof (intro conjI allI impI ballI)
  show "isValidOffer offer \<longleftrightarrow>
          (\<exists>s. company offer = Val s \<and> s \<noteq> []) \<or> (\<exists>n. base_offer offer = Val n \<and> n \<noteq> 0)
            \<or> (\<exists>n. total_offer offer = Val n \<and> n \<noteq> 0)"
    by (rule isValidOffer_iff)
next
  fix os sl x
  assume "parsePost pf gen k = (Inr (Some os), sl)" and "x \<in> set os"
  then show "isValidOffer x" by (rule parsePost_valid)
next
  fix os sl x
  assume "leetoffer_parsePost apiKey fetch k = (Inr (Some os), sl)" and "x \<in> set os"
  then show "isValidOffer x" by (rule leetoffer_parsePost_valid)
next
  fix y
  assume p: "\<forall>j p os. parse j p = Inr (Some os) \<longrightarrow> (\<forall>x \<in> set os. isValidOffer (x :: 'n ParsedOffer))"
    and y: "y \<in> set (newParsedOffers (forAwait dt parse initial posts))"
  have "\<forall>y \<in> set (newParsedOffers (initial :: 'n progress)). isValidOffer y"
    by (simp add: initial_def)
  with p y show "isValidOffer y"
    using forAwait_valid [of parse initial y dt posts] by blast
qed

theorem C7_validity_filter_by_truthiness_witness:
  "parsePost (\<lambda>s. None) (\<lambda>k. GenText (OfferArray [blank, acme, zeroTotal])) 0 = (Inr (Some [acme]), [])
   \<and> isValidOffer acme \<and> \<not> isValidOffer blank \<and> \<not> isValidOffer zeroTotal
   \<and> isValidOffer (blank\<lparr>total_offer := Val 4500000\<rparr>)"
proof -
  have r: "parsePost (\<lambda>s. None) (\<lambda>k. GenText (OfferArray [blank, acme, zeroTotal])) 0
             = (Inr (Some [acme]), [])"
    by (simp add: parsePost.simps validOffers_def isValidOffer_def hasCompany_def
        hasCompensation_def blank_def acme_def zeroTotal_def)
  note inst = C7_validity_filter_by_truthiness [where pf = "\<lambda>s. None"
      and gen = "\<lambda>k. GenText (OfferArray [blank, acme, zeroTotal])" and k = 0
      and apiKey = None and fetch = "\<lambda>k. NoChoices" and parse = "\<lambda>j p. Inr None"
      and dt = "\<lambda>n. []" and posts = "[]"]
  from inst [of acme, THEN conjunct2, THEN conjunct1] r have "isValidOffer acme" by simp
  moreover from inst [of blank, THEN conjunct1] have "\<not> isValidOffer blank"
    by (simp add: blank_def)
  moreover from inst [of zeroTotal, THEN conjunct1] have "\<not> isValidOffer zeroTotal"
    by (simp add: blank_def zeroTotal_def)
  moreover from inst [of "blank\<lparr>total_offer := Val 4500000\<rparr>", THEN conjunct1]
  have "isValidOffer (blank\<lparr>total_offer := Val 4500000\<rparr>)" by (simp add: blank_def)
  ultimately show ?thesis using r by simp
qed

text \<open>
  C7 as the specification states it fails: an offer with only \<^verbatim>\<open>total_offer\<close> set, to 0,
  has a compensation field present and is rejected.
\<close>

theorem C7_present_total_rejected:
  "\<not> (isValidOffer zeroTotal \<longleftrightarrow> spec_isValidOffer zeroTotal)"
  by (simp add: isValidOffer_def hasCompany_def hasCompensation_def spec_isValidOffer_def
      zeroTotal_def blank_def)


text \<open>
  C10. The filter tests truthiness: an offer whose company is the empty string and whose
  base and total compensation are 0 is rejected, as the same offer with the three fields
  absent or \<^verbatim>\<open>null\<close> is, and the extraction client's result is the same with or without
  it in the model's array.
\<close>

theorem C10_falsy_fields_rejected:
  fixes offer :: "('n::zero) ParsedOffer"
  assumes "company offer = Val []" and "base_offer offer = Val 0" and "total_offer offer = Val 0"
  shows "\<not> isValidOffer offer
    \<and> isValidOffer offer
        = isValidOffer (offer\<lparr>company := Undefined, base_offer := Undefined, total_offer := Undefined\<rparr>)
    \<and> isValidOffer offer
        = isValidOffer (offer\<lparr>company := Null, base_offer := Null, total_offer := Null\<rparr>)
    \<and> validOffers (OfferArray (xs @ offer # ys)) = validOffers (OfferArray (xs @ ys))"
proof -
  from assms have no: "\<not> isValidOffer offer"
    by (simp add: isValidOffer_def hasCompany_def hasCompensation_def)
  moreover have "\<not> isValidOffer (offer\<lparr>company := Undefined, base_offer := Undefined,
      total_offer := Undefined\<rparr>)"
    by (simp add: isValidOffer_def hasCompany_def hasCompensation_def)
  moreover have "\<not> isValidOffer (offer\<lparr>company := Null, base_offer := Null, total_offer := Null\<rparr>)"
    by (simp add: isValidOffer_def hasCompany_def hasCompensation_def)
  moreover from no have "filter isValidOffer (xs @ offer # ys) = filter isValidOffer (xs @ ys)"
    by simp
  then have "validOffers (OfferArray (xs @ offer # ys)) = validOffers (OfferArray (xs @ ys))"
    by (simp add: validOffers_def)
  ultimately show ?thesis by simp
qed

theorem C10_falsy_fields_rejected_witness:
  "company allFalsy = Val [] \<and> base_offer allFalsy = Val 0 \<and> total_offer allFalsy = Val 0
   \<and> \<not> isValidOffer allFalsy
   \<and> validOffers (OfferArray [acme, allFalsy]) = Some [acme]"
proof -
  have c: "company allFalsy = Val []" and b: "base_offer allFalsy = Val 0"
    and t: "total_offer allFalsy = Val 0"
    by (simp_all add: allFalsy_def blank_def)
  have "validOffers (OfferArray [acme]) = Some [acme]"
    by (simp add: validOffers_def isValidOffer_def hasCompany_def acme_def blank_def)
  with C10_falsy_fields_rejected [OF c b t, of "[acme]" "[]"] c b t show ?thesis by simp
qed


section \<open>Quota and rate limits in the extraction clients\<close>

text \<open>
  What \<^verbatim>\<open>parsePost\<close> of the \<^verbatim>\<open>leetcomp\<close> package does with a 429: a quota failure on
  the first attempt is thrown as \<^verbatim>\<open>QUOTA_EXCEEDED\<close> without a pause; another 429 is
  retried after the delay of \<open>delaySeconds\<close>, and the fourth 429 in a row gives \<^verbatim>\<open>null\<close>
  after three pauses.
\<close>

lemma parsePost_quota_exceeded:
  "gen 0 = GenThrew e \<Longrightarrow> status e = Some 429 \<Longrightarrow> findDetail QuotaFailure e \<noteq> None \<Longrightarrow>
     parsePost pf gen 0 = (Inl QUOTA_EXCEEDED, [])"
  by (simp add: parsePost.simps)

lemma delaySeconds_backoff:
  "findDetail RetryInfo e = None \<Longrightarrow> delaySeconds pf e k = Some (2 ^ k * 2)"
  by (simp add: delaySeconds_def)

lemma delaySeconds_server:
  "findDetail RetryInfo e = Some d \<Longrightarrow> retryDelay d = Some t \<Longrightarrow> t \<noteq> [] \<Longrightarrow>
     delaySeconds pf e k = pf (remove1 (CHR ''s'') t)"
  by (simp add: delaySeconds_def)

lemma parsePost_rate_limited_step:
  "gen k = GenThrew e \<Longrightarrow> status e = Some 429 \<Longrightarrow> k < 3 \<Longrightarrow>
   findDetail QuotaFailure e = None \<or> k \<noteq> 0 \<Longrightarrow>
     parsePost pf gen k =
       apsnd ((#) (map_option (\<lambda>d. d * 1000) (delaySeconds pf e k))) (parsePost pf gen (Suc k))"
  by (subst parsePost.simps) auto

lemma parsePost_max_retries:
  "gen k = GenThrew e \<Longrightarrow> status e = Some 429 \<Longrightarrow> 3 \<le> k \<Longrightarrow> parsePost pf gen k = (Inr None, [])"
  by (subst parsePost.simps) simp

lemma parsePost_retries_exhausted:
  assumes "\<And>k. k \<le> 3 \<Longrightarrow> gen k = GenThrew (e k) \<and> status (e k) = Some 429"
    and "findDetail QuotaFailure (e 0) = None"
  shows "parsePost pf gen 0 =
           (Inr None, map (\<lambda>k. map_option (\<lambda>d. d * 1000) (delaySeconds pf (e k) k)) [0, 1, 2])"
proof -
  let ?d = "\<lambda>k. map_option (\<lambda>d. d * 1000) (delaySeconds pf (e k) k)"
  have "parsePost pf gen (Suc 2) = (Inr None, [])"
    using assms(1) [of "Suc 2"] by (simp add: parsePost_max_retries)
  then have "parsePost pf gen 2 = (Inr None, [?d 2])"
    using assms(1) [of 2] parsePost_rate_limited_step [of gen 2 "e 2" pf] by simp
  then have "parsePost pf gen (Suc (Suc 0)) = (Inr None, [?d 2])"
    by (simp add: numeral_2_eq_2)
  then have "parsePost pf gen (Suc 0) = (Inr None, [?d 1, ?d 2])"
    using assms(1) [of "Suc 0"] parsePost_rate_limited_step [of gen "Suc 0" "e (Suc 0)" pf] by simp
  then show ?thesis
    using assms(1) [of 0] assms(2) parsePost_rate_limited_step [of gen 0 "e 0" pf] by simp
qed

text \<open>
  Four 429 answers in a row: pauses of 2, 4 and 8 seconds, or three times the delay the
  server suggests, and then \<^verbatim>\<open>null\<close>.
\<close>

lemma parsePost_backoff_example:
  "parsePost pf (\<lambda>k. GenThrew \<lparr>status = Some 429, errorDetails = None\<rparr>) 0
     = (Inr None, [Some 2000, Some 4000, Some 8000])"
  by (simp add: parsePost.simps findDetail_def delaySeconds_def)

lemma parsePost_server_delay_example:
  "parsePost pf (\<lambda>k. GenThrew \<lparr>status = Some 429,
       errorDetails = Some [\<lparr>type_url = RetryInfo, retryDelay = Some ''34s''\<rparr>]\<rparr>) 0
     = (Inr None, replicate 3 (map_option (\<lambda>d. d * 1000) (pf ''34'')))"
  by (simp add: parsePost.simps findDetail_def delaySeconds_def RetryInfo_def QuotaFailure_def
      numeral_3_eq_3)

text \<open>
  C4 fails in the \<^verbatim>\<open>leetoffer\<close> client. A response with status 429 makes the \<^verbatim>\<open>try\<close> block
  throw \<^verbatim>\<open>new Error(errorMsg)\<close>, which has no \<^verbatim>\<open>status\<close>; the \<^verbatim>\<open>catch\<close> block compares
  \<^verbatim>\<open>status\<close> with 429, finds \<^verbatim>\<open>undefined\<close>, and returns \<^verbatim>\<open>null\<close>. So a first attempt
  answered by 429 with a quota message gives \<^verbatim>\<open>null\<close>, not \<^verbatim>\<open>QUOTA_EXCEEDED\<close>, although
  the message names the quota. The \<^verbatim>\<open>leetcomp\<close> client throws \<^verbatim>\<open>QUOTA_EXCEEDED\<close> for the
  SDK's error with a \<^verbatim>\<open>QuotaFailure\<close> detail.
\<close>

theorem C4_leetoffer_quota_429_returns_null:
  "leetoffer_parsePost apiKey
      (\<lambda>k. if k = 0 then NotOk 429 (Json t (Some ''You exceeded your current quota'') None)
            else later k) 0
     = (Inr None, [])
   \<and> str_includes (errorMsg 429 (Json t (Some ''You exceeded your current quota'') None)) ''quota''
   \<and> parsePost pf (\<lambda>k. if k = 0 then GenThrew \<lparr>status = Some 429,
          errorDetails = Some [\<lparr>type_url = QuotaFailure, retryDelay = None\<rparr>]\<rparr> else later' k) 0
     = (Inl QUOTA_EXCEEDED, [])"
  by (simp add: leetoffer_parsePost_eq tryBlock_def errorMsg_def orElse_def parsePost.simps
      findDetail_def split: option.splits)

text \<open>
  C5 fails in the \<^verbatim>\<open>leetoffer\<close> client for the same reason: a 429 that is no quota failure
  is not retried. With a first attempt answered by 429 and a second that would return an
  offer, the client returns \<^verbatim>\<open>null\<close> and never pauses, where the \<^verbatim>\<open>leetcomp\<close> client
  pauses 2000 ms, retries and returns the offer.
\<close>

theorem C5_leetoffer_429_not_retried:
  "leetoffer_parsePost apiKey
      (\<lambda>k. if k = 0 then NotOk 429 (Json t (Some ''Too Many Requests'') None)
            else Content (OfferArray [acme])) 0
     = (Inr None, [])
   \<and> parsePost pf (\<lambda>k. if k = 0 then GenThrew \<lparr>status = Some 429, errorDetails = None\<rparr>
            else GenText (OfferArray [acme])) 0
     = (Inr (Some [acme]), [Some 2000])"
  by (simp add: leetoffer_parsePost_eq tryBlock_def parsePost.simps findDetail_def delaySeconds_def
      validOffers_def isValidOffer_def hasCompany_def acme_def blank_def split: option.splits)


section \<open>The merge of the Saving step\<close>

text \<open>
  For the examples: the string form of a number that is an integer below \<open>10^21\<close> in
  magnitude, which JavaScript prints in plain decimal; and two offers of post 105.
\<close>

definition numberToString :: "int \<Rightarrow> string" where
  "numberToString n = (if n < 0 then ''-'' @ decimal (nat (- n)) else decimal (nat n))"

definition acmeOffer :: "int Offer" where
  "acmeOffer =
     \<lparr>company = Val ''Acme'', role = Val ''SDE-2'', yoe = Null, base_offer = Null,
      total_offer = Val 4500000, location = Null, visa_sponsorship = Null,
      post_id = Val ''105'', post_title = Val ''Acme SDE-2 offer'', post_date = Val ''2024-01-01'',
      post_timestamp = Val 1704067200000\<rparr>"












text \<open>
  C9. The key is one string joined by \<^verbatim>\<open>-\<close>, so company \<^verbatim>\<open>A-B\<close> with role \<^verbatim>\<open>C\<close> and
  company \<^verbatim>\<open>A\<close> with role \<^verbatim>\<open>B-C\<close> have the same key whatever the other fields are; the
  two offers differ on the four fields, and the second is dropped when the first is in
  the loaded dataset.
\<close>

theorem C9_key_collision_drops_distinct_offer:
  "(let a = \<lparr>company = Val ''A-B'', role = Val ''C'', yoe = y, base_offer = b, total_offer = t,
              location = l, visa_sponsorship = v, post_id = p, post_title = pt, post_date = pd,
              post_timestamp = pts\<rparr>;
        a' = a\<lparr>company := Val ''A'', role := Val ''B-C''\<rparr>
    in keyFields a \<noteq> keyFields a' \<and> a \<noteq> a' \<and> offerKey ts a = offerKey ts a' \<and> allOffers ts [a] [a'] = [a])"
  by (simp add: Let_def keyFields_def offerKey_def allOffers_def uniqueNewOffers_def existingOfferKeys_def)



section \<open>The cursor file\<close>

text \<open>
  Two surroundings without a backup Gist: one where the dataset file cannot be written,
  one where every file can; and a store with no file.
\<close>

definition readOnlyDataset :: outside where
  "readOnlyDataset = \<lparr>writable = (\<lambda>path. path \<noteq> ''/app/public/parsed_comps.json''),
     gistConfigured = False, gistOffersPatched = False, gistMetadataPatched = False,
     now = 1704067200000, nowGist = 1704067200001\<rparr>"

definition allWritable :: outside where
  "allWritable = \<lparr>writable = (\<lambda>path. True),
     gistConfigured = False, gistOffersPatched = False, gistMetadataPatched = False,
     now = 1704067200000, nowGist = 1704067200001\<rparr>"

definition emptyStore :: "int store" where
  "emptyStore = \<lparr>localFiles = Map.empty, gistFiles = Map.empty\<rparr>"

lemma saveMetadata_local:
  "localFiles (saveMetadata w offers metadataPath pid st) =
     (if writable w metadataPath
      then (localFiles st)(metadataPath \<mapsto>
             MetadataJson \<lparr>lastPostId = pid, lastFetchTime = now w, totalOffers = length offers\<rparr>)
      else localFiles st)"
  by (simp add: saveMetadata_def Let_def)

lemma saveOffers_local:
  "localFiles (saveOffersGist w offers (saveOffersFile w offers outputPath st)) =
     (if writable w outputPath then (localFiles st)(outputPath \<mapsto> OffersJson offers) else localFiles st)"
  by (simp add: saveOffersGist_def saveOffersFile_def)

text \<open>
  What \<^verbatim>\<open>saveData\<close> does by design. After a dataset write that succeeded, a non-empty post
  id and a cursor file that can be written, both files are there, the cursor with that
  id, the time read from the clock and the number of offers saved. Without a post id
  (a run that processed no post) the dataset file is written and no cursor.
\<close>

lemma saveData_after_successful_save:
  assumes "pid \<noteq> []" and "writable w outputPath" and "writable w metadataPath"
  shows "localFiles (saveData w offers outputPath metadataPath (Some pid) st)
           = (localFiles st)(outputPath \<mapsto> OffersJson offers,
                metadataPath \<mapsto> MetadataJson \<lparr>lastPostId = pid, lastFetchTime = now w,
                                              totalOffers = length offers\<rparr>)"
  using assms by (simp add: saveData_def Let_def saveMetadata_local saveOffers_local)

lemma saveData_without_post_id:
  assumes "cursor = None \<or> cursor = Some []"
  shows "localFiles (saveData w offers outputPath metadataPath cursor st)
           = (if writable w outputPath then (localFiles st)(outputPath \<mapsto> OffersJson offers)
              else localFiles st)"
  using assms by (auto simp: saveData_def Let_def saveOffers_local)

lemma saveData_full_example:
  "localFiles (saveData allWritable [acmeOffer] ''/app/public/parsed_comps.json''
       ''/app/public/.leetoffer_metadata.json'' (Some ''105'') emptyStore)
     = [''/app/public/parsed_comps.json'' \<mapsto> OffersJson [acmeOffer],
        ''/app/public/.leetoffer_metadata.json'' \<mapsto>
          MetadataJson \<lparr>lastPostId = ''105'', lastFetchTime = 1704067200000, totalOffers = 1\<rparr>]"
  using saveData_after_successful_save [of "''105''" allWritable "''/app/public/parsed_comps.json''"
      "''/app/public/.leetoffer_metadata.json''" "[acmeOffer]" emptyStore]
  by (simp add: allWritable_def emptyStore_def)

text \<open>
  C8 fails in the code. \<^verbatim>\<open>saveData\<close> catches the failure of the dataset write (line 185)
  and goes on to the cursor, which only \<^verbatim>\<open>if (lastFetchedPostId)\<close> guards. With a dataset
  file that cannot be written and no Gist, the dataset is saved nowhere and the cursor
  file is written with post 105, so the next run starts after posts whose offers were
  lost. At the same input the \<^verbatim>\<open>leetcomp\<close> orchestrator ends with the error and writes no
  cursor.
\<close>

theorem C8_cursor_written_after_failed_dataset_save:
  "localFiles (saveData readOnlyDataset [acmeOffer] ''/app/public/parsed_comps.json''
       ''/app/public/.leetoffer_metadata.json'' (Some ''105'') emptyStore)
     ''/app/public/parsed_comps.json'' = None
   \<and> gistFiles (saveData readOnlyDataset [acmeOffer] ''/app/public/parsed_comps.json''
       ''/app/public/.leetoffer_metadata.json'' (Some ''105'') emptyStore) = Map.empty
   \<and> localFiles (saveData readOnlyDataset [acmeOffer] ''/app/public/parsed_comps.json''
       ''/app/public/.leetoffer_metadata.json'' (Some ''105'') emptyStore)
     ''/app/public/.leetoffer_metadata.json''
     = Some (MetadataJson \<lparr>lastPostId = ''105'', lastFetchTime = 1704067200000, totalOffers = 1\<rparr>)
   \<and> leetcomp_save readOnlyDataset [acmeOffer] ''/app/public/parsed_comps.json''
       ''/app/public/.leetoffer_metadata.json'' (Some ''105'') emptyStore
     = (emptyStore, True)"
  by (simp add: saveData_def saveMetadata_def saveOffersGist_def saveOffersFile_def
      leetcomp_save_def readOnlyDataset_def emptyStore_def)


section \<open>The loop of \<^verbatim>\<open>run\<close>: call budget and cursor\<close>

text \<open>One iteration of the loop, by the way it ends.\<close>

lemma forAwait_at_cap:
  "MAX_DAILY_API_CALLS \<le> apiCallCount s \<Longrightarrow> forAwait dt parse s posts = s"
  by (cases posts) simp_all

lemma forAwait_Cons_cases [case_names cap skip thrown empty offers undated]:
  obtains
    "MAX_DAILY_API_CALLS \<le> apiCallCount s" and "forAwait dt parse s (p # ps) = s"
  | "apiCallCount s < MAX_DAILY_API_CALLS" and "vote_count p < 0"
      and "forAwait dt parse s (p # ps) =
            forAwait dt parse
              (s\<lparr>processedCount := processedCount s + 1, lastFetchedPostId := Some (id' p)\<rparr>) ps"
  | "apiCallCount s < MAX_DAILY_API_CALLS" and "\<not> vote_count p < 0"
      and "forAwait dt parse s (p # ps) =
            s\<lparr>processedCount := processedCount s + 1, lastFetchedPostId := Some (id' p),
              apiCallCount := apiCallCount s + 1, calls := calls s @ [p]\<rparr>"
  | "apiCallCount s < MAX_DAILY_API_CALLS" and "\<not> vote_count p < 0"
      and "forAwait dt parse s (p # ps) =
            forAwait dt parse
              (s\<lparr>processedCount := processedCount s + 1, lastFetchedPostId := Some (id' p),
                 apiCallCount := apiCallCount s + 1, calls := calls s @ [p]\<rparr>) ps"
  | os where "apiCallCount s < MAX_DAILY_API_CALLS" and "\<not> vote_count p < 0"
      and "parse (apiCallCount s) p = Inr (Some os)" and "os \<noteq> []"
      and "validDate (creation_date p)"
      and "forAwait dt parse s (p # ps) =
            forAwait dt parse
              (s\<lparr>processedCount := processedCount s + 1, lastFetchedPostId := Some (id' p),
                 apiCallCount := apiCallCount s + 1, calls := calls s @ [p],
                 successCount := successCount s + 1,
                 newParsedOffers := newParsedOffers s @ map (withMetadata dt p) os\<rparr>) ps"
  | "apiCallCount s < MAX_DAILY_API_CALLS" and "\<not> vote_count p < 0"
      and "\<not> validDate (creation_date p)"
      and "forAwait dt parse s (p # ps) =
            forAwait dt parse
              (s\<lparr>processedCount := processedCount s + 1, lastFetchedPostId := Some (id' p),
                 apiCallCount := apiCallCount s + 1, calls := calls s @ [p],
                 successCount := successCount s + 1\<rparr>) ps"
proof -
  let ?s1 = "s\<lparr>processedCount := processedCount s + 1, lastFetchedPostId := Some (id' p)\<rparr>"
  let ?s2 = "s\<lparr>processedCount := processedCount s + 1, lastFetchedPostId := Some (id' p),
               apiCallCount := apiCallCount s + 1, calls := calls s @ [p]\<rparr>"
  show thesis
  proof (cases "MAX_DAILY_API_CALLS \<le> apiCallCount s")
    case True
    then show thesis using that(1) by simp
  next
    case below: False
    show thesis
    proof (cases "vote_count p < 0")
      case True
      with below show thesis using that(2) by (simp add: Let_def)
    next
      case votes: False
      show thesis
      proof (cases "parse (apiCallCount s) p")
        case (Inl m)
        show thesis
        proof (cases "m = QUOTA_EXCEEDED")
          case True
          with below votes Inl have "forAwait dt parse s (p # ps) = ?s2" by (simp add: Let_def)
          with below votes show thesis using that(3) by simp
        next
          case False
          with below votes Inl have "forAwait dt parse s (p # ps) = forAwait dt parse ?s2 ps"
            by (simp add: Let_def)
          with below votes show thesis using that(4) by simp
        qed
      next
        case (Inr r)
        show thesis
        proof (cases "\<exists>os. r = Some os \<and> os \<noteq> []")
          case True
          then obtain os where r: "r = Some os" and ne: "os \<noteq> []" by blast
          show thesis
          proof (cases "validDate (creation_date p)")
            case True
            with below votes Inr r ne show thesis using that(5) [of os] by (simp add: Let_def)
          next
            case False
            with below votes Inr r ne show thesis using that(6) by (simp add: Let_def)
          qed
        next
          case False
          with below votes Inr have "forAwait dt parse s (p # ps) = forAwait dt parse ?s2 ps"
            by (cases r) (simp_all add: Let_def)
          with below votes show thesis using that(4) by simp
        qed
      qed
    qed
  qed
qed

lemma forAwait_within_cap:
  "apiCallCount s \<le> MAX_DAILY_API_CALLS \<Longrightarrow>
     apiCallCount (forAwait dt parse s posts) \<le> MAX_DAILY_API_CALLS"
proof (induction posts arbitrary: s)
  case Nil
  then show ?case by simp
next
  case (Cons p ps)
  show ?case
  proof (cases rule: forAwait_Cons_cases [of s dt parse p ps])
    case cap
    with Cons.prems show ?thesis by simp
  next
    case skip
    with Cons.IH [of "s\<lparr>processedCount := processedCount s + 1, lastFetchedPostId := Some (id' p)\<rparr>"]
      Cons.prems show ?thesis by simp
  next
    case thrown
    then show ?thesis by simp
  next
    case empty
    then show ?thesis
      using Cons.IH [of "s\<lparr>processedCount := processedCount s + 1, lastFetchedPostId := Some (id' p),
                 apiCallCount := apiCallCount s + 1, calls := calls s @ [p]\<rparr>"] by simp
  next
    case (offers os)
    then show ?thesis
      using Cons.IH [of "s\<lparr>processedCount := processedCount s + 1, lastFetchedPostId := Some (id' p),
                 apiCallCount := apiCallCount s + 1, calls := calls s @ [p],
                 successCount := successCount s + 1,
                 newParsedOffers := newParsedOffers s @ map (withMetadata dt p) os\<rparr>"] by simp
  next
    case undated
    then show ?thesis
      using Cons.IH [of "s\<lparr>processedCount := processedCount s + 1, lastFetchedPostId := Some (id' p),
                 apiCallCount := apiCallCount s + 1, calls := calls s @ [p],
                 successCount := successCount s + 1\<rparr>"] by simp
  qed
qed


lemma forAwait_counts_calls:
  "apiCallCount (forAwait dt parse s posts) + length (calls s)
     = apiCallCount s + length (calls (forAwait dt parse s posts))"
proof (induction posts arbitrary: s)
  case Nil
  show ?case by simp
next
  case (Cons p ps)
  show ?case
  proof (cases rule: forAwait_Cons_cases [of s dt parse p ps])
    case cap
    then show ?thesis by simp
  next
    case skip
    with Cons.IH [of "s\<lparr>processedCount := processedCount s + 1, lastFetchedPostId := Some (id' p)\<rparr>"]
    show ?thesis by simp
  next
    case thrown
    then show ?thesis by simp
  next
    case empty
    then show ?thesis
      using Cons.IH [of "s\<lparr>processedCount := processedCount s + 1, lastFetchedPostId := Some (id' p),
                 apiCallCount := apiCallCount s + 1, calls := calls s @ [p]\<rparr>"] by simp
  next
    case (offers os)
    then show ?thesis
      using Cons.IH [of "s\<lparr>processedCount := processedCount s + 1, lastFetchedPostId := Some (id' p),
                 apiCallCount := apiCallCount s + 1, calls := calls s @ [p],
                 successCount := successCount s + 1,
                 newParsedOffers := newParsedOffers s @ map (withMetadata dt p) os\<rparr>"] by simp
  next
    case undated
    then show ?thesis
      using Cons.IH [of "s\<lparr>processedCount := processedCount s + 1, lastFetchedPostId := Some (id' p),
                 apiCallCount := apiCallCount s + 1, calls := calls s @ [p],
                 successCount := successCount s + 1\<rparr>"] by simp
  qed
qed

lemma forAwait_calls_nonnegative:
  "\<exists>n. calls (forAwait dt parse s posts) = calls s @ take n (filter (\<lambda>p. \<not> vote_count p < 0) posts)"
proof (induction posts arbitrary: s)
  case Nil
  show ?case by simp
next
  case (Cons p ps)
  let ?f = "filter (\<lambda>p. \<not> vote_count p < 0)"
  show ?case
  proof (cases rule: forAwait_Cons_cases [of s dt parse p ps])
    case cap
    then have "calls (forAwait dt parse s (p # ps)) = calls s @ take 0 (?f (p # ps))" by simp
    then show ?thesis by blast
  next
    case skip
    with Cons.IH [of "s\<lparr>processedCount := processedCount s + 1, lastFetchedPostId := Some (id' p)\<rparr>"]
    show ?thesis by simp
  next
    case thrown
    then have "calls (forAwait dt parse s (p # ps)) = calls s @ take 1 (?f (p # ps))" by simp
    then show ?thesis by blast
  next
    case empty
    from Cons.IH [of "s\<lparr>processedCount := processedCount s + 1, lastFetchedPostId := Some (id' p),
                 apiCallCount := apiCallCount s + 1, calls := calls s @ [p]\<rparr>"]
    obtain n where "calls (forAwait dt parse s (p # ps)) = (calls s @ [p]) @ take n (?f ps)"
      using empty by auto
    with empty have "calls (forAwait dt parse s (p # ps)) = calls s @ take (Suc n) (?f (p # ps))"
      by simp
    then show ?thesis by blast
  next
    case (offers os)
    from Cons.IH [of "s\<lparr>processedCount := processedCount s + 1, lastFetchedPostId := Some (id' p),
                 apiCallCount := apiCallCount s + 1, calls := calls s @ [p],
                 successCount := successCount s + 1,
                 newParsedOffers := newParsedOffers s @ map (withMetadata dt p) os\<rparr>"]
    obtain n where "calls (forAwait dt parse s (p # ps)) = (calls s @ [p]) @ take n (?f ps)"
      using offers by auto
    with offers have "calls (forAwait dt parse s (p # ps)) = calls s @ take (Suc n) (?f (p # ps))"
      by simp
    then show ?thesis by blast
  next
    case undated
    from Cons.IH [of "s\<lparr>processedCount := processedCount s + 1, lastFetchedPostId := Some (id' p),
                 apiCallCount := apiCallCount s + 1, calls := calls s @ [p],
                 successCount := successCount s + 1\<rparr>"]
    obtain n where "calls (forAwait dt parse s (p # ps)) = (calls s @ [p]) @ take n (?f ps)"
      using undated by auto
    with undated have "calls (forAwait dt parse s (p # ps)) = calls s @ take (Suc n) (?f (p # ps))"
      by simp
    then show ?thesis by blast
  qed
qed

lemma forAwait_one_call_left:
  "apiCallCount s + 1 = MAX_DAILY_API_CALLS \<Longrightarrow>
     calls (forAwait dt parse s posts) = calls s @ take 1 (filter (\<lambda>p. \<not> vote_count p < 0) posts)
     \<and> apiCallCount (forAwait dt parse s posts)
         = apiCallCount s + length (take 1 (filter (\<lambda>p. \<not> vote_count p < 0) posts))
     \<and> processedCount (forAwait dt parse s posts)
         = processedCount s + length (takeWhile (\<lambda>p. vote_count p < 0) posts)
             + length (take 1 (filter (\<lambda>p. \<not> vote_count p < 0) posts))"
proof (induction posts arbitrary: s)
  case Nil
  show ?case by simp
next
  case (Cons p ps)
  show ?case
  proof (cases rule: forAwait_Cons_cases [of s dt parse p ps])
    case cap
    with Cons.prems show ?thesis by simp
  next
    case skip
    with Cons.IH [of "s\<lparr>processedCount := processedCount s + 1, lastFetchedPostId := Some (id' p)\<rparr>"]
      Cons.prems show ?thesis by simp
  next
    case thrown
    then show ?thesis by simp
  next
    case empty
    with Cons.prems show ?thesis by (simp add: forAwait_at_cap)
  next
    case (offers os)
    with Cons.prems show ?thesis by (simp add: forAwait_at_cap)
  next
    case undated
    with Cons.prems show ?thesis by (simp add: forAwait_at_cap)
  qed
qed

lemma forAwait_cursor_is_last_processed:
  "\<exists>n \<le> length posts.
     processedCount (forAwait dt parse s posts) = processedCount s + n
     \<and> lastFetchedPostId (forAwait dt parse s posts)
         = (if n = 0 then lastFetchedPostId s else Some (id' (posts ! (n - 1))))"
proof (induction posts arbitrary: s)
  case Nil
  show ?case by simp
next
  case (Cons p ps)
  have step: "\<exists>n \<le> length (p # ps).
     processedCount (forAwait dt parse s' ps) = processedCount s + n
     \<and> lastFetchedPostId (forAwait dt parse s' ps)
         = (if n = 0 then lastFetchedPostId s else Some (id' ((p # ps) ! (n - 1))))"
    if s': "processedCount s' = processedCount s + 1" "lastFetchedPostId s' = Some (id' p)" for s'
  proof -
    from Cons.IH [of s'] obtain n where n: "n \<le> length ps"
      "processedCount (forAwait dt parse s' ps) = processedCount s' + n"
      "lastFetchedPostId (forAwait dt parse s' ps)
         = (if n = 0 then lastFetchedPostId s' else Some (id' (ps ! (n - 1))))"
      by blast
    with s' have "Suc n \<le> length (p # ps)
      \<and> processedCount (forAwait dt parse s' ps) = processedCount s + Suc n
      \<and> lastFetchedPostId (forAwait dt parse s' ps)
         = (if Suc n = 0 then lastFetchedPostId s else Some (id' ((p # ps) ! (Suc n - 1))))"
      by (cases n) simp_all
    then show ?thesis by blast
  qed
  show ?case
  proof (cases rule: forAwait_Cons_cases [of s dt parse p ps])
    case cap
    then have "0 \<le> length (p # ps) \<and> processedCount (forAwait dt parse s (p # ps)) = processedCount s + 0
      \<and> lastFetchedPostId (forAwait dt parse s (p # ps))
          = (if (0::nat) = 0 then lastFetchedPostId s else Some (id' ((p # ps) ! (0 - 1))))"
      by simp
    then show ?thesis by blast
  next
    case skip
    then show ?thesis
      using step [of "s\<lparr>processedCount := processedCount s + 1, lastFetchedPostId := Some (id' p)\<rparr>"]
      by simp
  next
    case thrown
    then have "1 \<le> length (p # ps) \<and> processedCount (forAwait dt parse s (p # ps)) = processedCount s + 1
      \<and> lastFetchedPostId (forAwait dt parse s (p # ps))
          = (if (1::nat) = 0 then lastFetchedPostId s else Some (id' ((p # ps) ! (1 - 1))))"
      by simp
    then show ?thesis by blast
  next
    case empty
    then show ?thesis
      using step [of "s\<lparr>processedCount := processedCount s + 1, lastFetchedPostId := Some (id' p),
                 apiCallCount := apiCallCount s + 1, calls := calls s @ [p]\<rparr>"] by simp
  next
    case (offers os)
    then show ?thesis
      using step [of "s\<lparr>processedCount := processedCount s + 1, lastFetchedPostId := Some (id' p),
                 apiCallCount := apiCallCount s + 1, calls := calls s @ [p],
                 successCount := successCount s + 1,
                 newParsedOffers := newParsedOffers s @ map (withMetadata dt p) os\<rparr>"] by simp
  next
    case undated
    then show ?thesis
      using step [of "s\<lparr>processedCount := processedCount s + 1, lastFetchedPostId := Some (id' p),
                 apiCallCount := apiCallCount s + 1, calls := calls s @ [p],
                 successCount := successCount s + 1\<rparr>"] by simp
  qed
qed


text \<open>Edges and posts for the examples, and a forum of one page.\<close>

definition pinned :: Edge where
  "pinned = \<lparr>node_id = ''9'', node_title = ''Read before posting'', voteCount = 50,
              commentCount = 0, viewCount = 90000, creationDate = 1500000000\<rparr>"

definition e105 :: Edge where
  "e105 = \<lparr>node_id = ''105'', node_title = ''Acme SDE-2 offer'', voteCount = 3,
            commentCount = 1, viewCount = 40, creationDate = 1704067200\<rparr>"

definition e104 :: Edge where
  "e104 = \<lparr>node_id = ''104'', node_title = ''Beta SDE-1 offer'', voteCount = 0,
            commentCount = 0, viewCount = 12, creationDate = 1704060000\<rparr>"

definition e103 :: Edge where
  "e103 = \<lparr>node_id = ''103'', node_title = ''Gamma offer'', voteCount = 7,
            commentCount = 2, viewCount = 80, creationDate = 1704050000\<rparr>"

definition e102 :: Edge where
  "e102 = \<lparr>node_id = ''102'', node_title = ''Delta offer'', voteCount = 1,
            commentCount = 0, viewCount = 30, creationDate = 1704040000\<rparr>"

definition downvoted :: LeetCodePost where
  "downvoted = \<lparr>id' = ''106'', title = ''spam'', content = ''x'', vote_count = - 2,
                 comment_count = 0, view_count = 5, creation_date = 1704070000000\<rparr>"

text \<open>A forum whose listing has one page, with every topic's content readable.\<close>

definition onePage :: "Edge list \<Rightarrow> forum" where
  "onePage edges =
     \<lparr>listPage = (\<lambda>skip. if skip = 0 then Data (Some edges) else Data None),
      topicContent = (\<lambda>n. Data (Some ''body''))\<rparr>"

text \<open>
  C6. The call counter never passes 240: from a counter at or below the cap the loop ends
  at or below it, and a run starts from 0. At the cap the loop ends without touching a
  variable. From 239 the loop hands exactly the first post with a non-negative vote count
  to \<^verbatim>\<open>parsePost\<close> (if there is one), having processed the negative ones before it, and
  processes nothing after it. Only posts with a non-negative vote count are handed to
  \<^verbatim>\<open>parsePost\<close>, and the counter grows by one for each call.
\<close>

theorem C6_budget_cap:
  "(apiCallCount s \<le> MAX_DAILY_API_CALLS \<longrightarrow>
      apiCallCount (forAwait dt parse s posts) \<le> MAX_DAILY_API_CALLS)
   \<and> MAX_DAILY_API_CALLS = 240
   \<and> apiCallCount (fst (run dt ts parse F w outputPath metadataPath existing cursor st)) \<le> 240
   \<and> (MAX_DAILY_API_CALLS \<le> apiCallCount s \<longrightarrow> forAwait dt parse s posts = s)
   \<and> (apiCallCount s = 239 \<longrightarrow>
        calls (forAwait dt parse s posts) = calls s @ take 1 (filter (\<lambda>p. \<not> vote_count p < 0) posts)
        \<and> apiCallCount (forAwait dt parse s posts)
            = 239 + length (take 1 (filter (\<lambda>p. \<not> vote_count p < 0) posts))
        \<and> processedCount (forAwait dt parse s posts)
            = processedCount s + length (takeWhile (\<lambda>p. vote_count p < 0) posts)
                + length (take 1 (filter (\<lambda>p. \<not> vote_count p < 0) posts)))
   \<and> (\<exists>n. calls (forAwait dt parse s posts)
          = calls s @ take n (filter (\<lambda>p. \<not> vote_count p < 0) posts))
   \<and> apiCallCount (forAwait dt parse s posts) + length (calls s)
        = apiCallCount s + length (calls (forAwait dt parse s posts))"
proof (intro conjI impI)
  show "apiCallCount (forAwait dt parse s posts) \<le> MAX_DAILY_API_CALLS"
    if "apiCallCount s \<le> MAX_DAILY_API_CALLS"
    using that by (rule forAwait_within_cap)
  show "MAX_DAILY_API_CALLS = 240" by (simp add: MAX_DAILY_API_CALLS_def)
  have "apiCallCount (forAwait dt parse initial posts') \<le> MAX_DAILY_API_CALLS" for posts'
    by (rule forAwait_within_cap) (simp add: initial_def)
  then show "apiCallCount (fst (run dt ts parse F w outputPath metadataPath existing cursor st)) \<le> 240"
    by (simp add: run_def Let_def MAX_DAILY_API_CALLS_def)
  show "forAwait dt parse s posts = s" if "MAX_DAILY_API_CALLS \<le> apiCallCount s"
    using that by (rule forAwait_at_cap)
  show "\<exists>n. calls (forAwait dt parse s posts)
          = calls s @ take n (filter (\<lambda>p. \<not> vote_count p < 0) posts)"
    by (rule forAwait_calls_nonnegative)
  show "apiCallCount (forAwait dt parse s posts) + length (calls s)
        = apiCallCount s + length (calls (forAwait dt parse s posts))"
    by (rule forAwait_counts_calls)
next
  assume "apiCallCount s = 239"
  then have one: "apiCallCount s + 1 = MAX_DAILY_API_CALLS" by (simp add: MAX_DAILY_API_CALLS_def)
  from forAwait_one_call_left [OF one, of dt parse posts] \<open>apiCallCount s = 239\<close>
  show "calls (forAwait dt parse s posts) = calls s @ take 1 (filter (\<lambda>p. \<not> vote_count p < 0) posts)"
    and "apiCallCount (forAwait dt parse s posts)
            = 239 + length (take 1 (filter (\<lambda>p. \<not> vote_count p < 0) posts))"
    and "processedCount (forAwait dt parse s posts)
            = processedCount s + length (takeWhile (\<lambda>p. vote_count p < 0) posts)
                + length (take 1 (filter (\<lambda>p. \<not> vote_count p < 0) posts))"
    by simp_all
qed

theorem C6_budget_cap_witness:
  "apiCallCount (initial\<lparr>apiCallCount := 239\<rparr> :: int progress) = 239
   \<and> calls (forAwait (\<lambda>t. ''2024-01-01'') (\<lambda>k p. Inr None) (initial\<lparr>apiCallCount := 239\<rparr> :: int progress)
        [downvoted, toPost e105 ''body'', toPost e104 ''body'']) = [toPost e105 ''body'']
   \<and> apiCallCount (forAwait (\<lambda>t. ''2024-01-01'') (\<lambda>k p. Inr None) (initial\<lparr>apiCallCount := 239\<rparr> :: int progress)
        [downvoted, toPost e105 ''body'', toPost e104 ''body'']) = 240
   \<and> processedCount (forAwait (\<lambda>t. ''2024-01-01'') (\<lambda>k p. Inr None) (initial\<lparr>apiCallCount := 239\<rparr> :: int progress)
        [downvoted, toPost e105 ''body'', toPost e104 ''body'']) = 2"
proof -
  have h: "apiCallCount (initial\<lparr>apiCallCount := 239\<rparr> :: int progress) = 239" by simp
  have v: "vote_count downvoted < 0" "\<not> vote_count (toPost e105 ''body'') < 0"
    by (simp_all add: downvoted_def toPost_def e105_def)
  from C6_budget_cap [where s = "initial\<lparr>apiCallCount := 239\<rparr> :: int progress"
      and posts = "[downvoted, toPost e105 ''body'', toPost e104 ''body'']"
      and dt = "\<lambda>t. ''2024-01-01''" and parse = "\<lambda>k p. Inr None",
      THEN conjunct2, THEN conjunct2, THEN conjunct2, THEN conjunct2, THEN conjunct1, rule_format, OF h]
  show ?thesis using h v by (simp add: initial_def)
qed


text \<open>A first run in full mode over a listing of the pinned post and posts 105 and 104.\<close>

definition firstRun :: "int progress \<times> int store" where
  "firstRun =
     run (\<lambda>t. ''2024-01-01'') numberToString (\<lambda>k p. Inr None) (onePage [pinned, e105, e104])
       allWritable ''/app/public/parsed_comps.json'' ''/app/public/.leetoffer_metadata.json''
       [] None emptyStore"

lemmas eval_forum = getLatestPosts_def whileLoop.simps onePage_def pinned_def e105_def e104_def e103_def e102_def
  first_def caughtUp_def parseInt_def unsignedInt_def isWhiteSpace_def digitValue_def
  getPostContent_def toPost_def hasCursor_def

text \<open>
  C2 fails in the code. \<^verbatim>\<open>lastFetchedPostId = post.id\<close> is assigned at every iteration
  (lemma \<open>forAwait_cursor_is_last_processed\<close>), and the posts come newest first, so the
  cursor saved is the id of the oldest post processed. A first run over posts 105 and 104
  saves the cursor 104, and the generator of the next run yields post 105 again.
\<close>

theorem C2_cursor_is_last_processed_post:
  "map id' (calls (fst firstRun)) = [''105'', ''104'']
   \<and> lastFetchedPostId (fst firstRun) = Some ''104''
   \<and> localFiles (snd firstRun) ''/app/public/.leetoffer_metadata.json''
       = Some (MetadataJson \<lparr>lastPostId = ''104'', lastFetchTime = 1704067200000, totalOffers = 0\<rparr>)
   \<and> map id' (fst (getLatestPosts (onePage [pinned, e105, e104]) (Some ''104'') 500)) = [''105'']"
proof -
  have posts: "fst (getLatestPosts (onePage [pinned, e105, e104]) None 2000)
                 = [toPost e105 ''body'', toPost e104 ''body'']"
    by (simp add: eval_forum)
  have loop: "forAwait (\<lambda>t. ''2024-01-01'') (\<lambda>k p. Inr None) (initial :: int progress)
                [toPost e105 ''body'', toPost e104 ''body'']
              = \<lparr>newParsedOffers = [], processedCount = 2, successCount = 0,
                 lastFetchedPostId = Some ''104'', apiCallCount = 2,
                 calls = [toPost e105 ''body'', toPost e104 ''body'']\<rparr>"
    by (simp add: initial_def MAX_DAILY_API_CALLS_def toPost_def e105_def e104_def)
  have run: "firstRun =
      (\<lparr>newParsedOffers = [], processedCount = 2, successCount = 0,
        lastFetchedPostId = Some ''104'', apiCallCount = 2,
        calls = [toPost e105 ''body'', toPost e104 ''body'']\<rparr>,
       saveData allWritable [] ''/app/public/parsed_comps.json'' ''/app/public/.leetoffer_metadata.json''
         (Some ''104'') emptyStore)"
    unfolding firstRun_def run_def Let_def hasCursor_def
    by (simp only: option.simps if_False posts loop)
      (simp add: allOffers_def uniqueNewOffers_def)
  have again: "map id' (fst (getLatestPosts (onePage [pinned, e105, e104]) (Some ''104'') 500)) = [''105'']"
    by (simp add: eval_forum)
  have processed: "map id' (calls (fst firstRun)) = [''105'', ''104'']"
    and cursor: "lastFetchedPostId (fst firstRun) = Some ''104''"
    and saved: "localFiles (snd firstRun) ''/app/public/.leetoffer_metadata.json''
       = Some (MetadataJson \<lparr>lastPostId = ''104'', lastFetchTime = 1704067200000, totalOffers = 0\<rparr>)"
    by (simp_all add: run toPost_def e105_def e104_def saveData_def saveMetadata_def
        saveOffersGist_def saveOffersFile_def allWritable_def emptyStore_def)
  show ?thesis by (intro conjI processed cursor saved again)
qed



section \<open>The cursor boundary of the post source client\<close>

text \<open>
  With a cursor, a post is yielded only after the comparison of line 84 has failed for
  it, in the loop over a page and so in the whole generator.
\<close>

lemma pageLoop_newer:
  assumes "c \<noteq> []"
  shows "\<forall>p \<in> set (yielded st). \<not> js_le (parseInt (id' p)) (parseInt c) \<Longrightarrow>
         p \<in> set (yielded (pageLoop F (Some c) M st es)) \<Longrightarrow>
         \<not> js_le (parseInt (id' p)) (parseInt c)"
proof (induction es arbitrary: st)
  case Nil
  then show ?case by simp
next
  case (Cons e es)
  show ?case
  proof (cases "totalFetched st \<ge> M \<or> caughtUp (Some c) e")
    case True
    with Cons.prems(2) have "p \<in> set (yielded st)" by (auto split: if_splits)
    with Cons.prems(1) show ?thesis by blast
  next
    case False
    then have new: "\<not> js_le (parseInt (node_id e)) (parseInt c)"
      using assms by (simp add: caughtUp_def)
    show ?thesis
    proof (cases "getPostContent F (parseInt (node_id e))")
      case None
      with False Cons.prems(2) have "p \<in> set (yielded (pageLoop F (Some c) M st es))" by simp
      with Cons.IH [OF Cons.prems(1)] show ?thesis .
    next
      case (Some body)
      let ?st = "st\<lparr>totalFetched := totalFetched st + 1, postsProcessed := postsProcessed st + 1,
                    yielded := yielded st @ [toPost e body]\<rparr>"
      from Some False Cons.prems(2) have "p \<in> set (yielded (pageLoop F (Some c) M ?st es))" by simp
      moreover from new Cons.prems(1)
      have "\<forall>p \<in> set (yielded ?st). \<not> js_le (parseInt (id' p)) (parseInt c)"
        by (simp add: toPost_def)
      ultimately show ?thesis using Cons.IH [of ?st] by blast
    qed
  qed
qed

lemma whileLoop_newer:
  assumes "c \<noteq> []"
  shows "\<forall>p \<in> set (yielded st). \<not> js_le (parseInt (id' p)) (parseInt c) \<Longrightarrow>
         p \<in> set (fst (whileLoop F (Some c) M skip st)) \<Longrightarrow>
         \<not> js_le (parseInt (id' p)) (parseInt c)"
proof (induction F "Some c" M skip st rule: whileLoop.induct)
  case (1 F M skip st)
  show ?case
  proof (cases "totalFetched st < M \<and> \<not> foundLastPost st")
    case False
    with "1.prems" show ?thesis by (subst (asm) whileLoop.simps) auto
  next
    case go: True
    show ?thesis
    proof (cases "listPage F skip")
      case Failed
      with go "1.prems" show ?thesis by (subst (asm) whileLoop.simps) auto
    next
      case (Data r)
      show ?thesis
      proof (cases r)
        case None
        with Data go "1.prems" show ?thesis by (subst (asm) whileLoop.simps) auto
      next
        case (Some posts)
        let ?st = "pageLoop F (Some c) M (st\<lparr>postsProcessed := 0\<rparr>) (if skip = 0 then tl posts else posts)"
        have inv: "\<forall>p \<in> set (yielded ?st). \<not> js_le (parseInt (id' p)) (parseInt c)"
          using pageLoop_newer [OF assms, of "st\<lparr>postsProcessed := 0\<rparr>"] "1.prems"(1) by auto
        show ?thesis
        proof (cases "length posts = 0 \<or> length posts < first \<or> (postsProcessed ?st = 0 \<and> length posts > 0)")
          case True
          with Data Some go "1.prems" inv show ?thesis
            by (subst (asm) whileLoop.simps) (auto simp: Let_def split: if_splits)
        next
          case False
          then have ne: "length posts \<noteq> 0"
            and cont: "\<not> (length posts < first \<or> postsProcessed ?st = 0 \<and> 0 < length posts)"
            by auto
          with Data Some go "1.prems"(2)
          have "p \<in> set (fst (whileLoop F (Some c) M (skip + first) ?st))"
            by (subst (asm) whileLoop.simps) (auto simp: Let_def split: if_splits)
          with "1.hyps" [OF go Data Some ne refl refl cont inv] show ?thesis .
        qed
      qed
    qed
  qed
qed


lemma pageLoop_append:
  "\<forall>x \<in> set pre. \<not> caughtUp l x \<Longrightarrow>
     pageLoop F l M st (pre @ ys) = pageLoop F l M (pageLoop F l M st pre) ys"
proof (induction pre arbitrary: st)
  case Nil
  show ?case by simp
next
  case (Cons e es)
  show ?case
  proof (cases "M \<le> totalFetched st")
    case True
    then show ?thesis by (cases ys) simp_all
  next
    case False
    with Cons show ?thesis by (simp split: option.splits)
  qed
qed

lemma whileLoop_done:
  "\<not> (totalFetched st < M \<and> \<not> foundLastPost st) \<Longrightarrow> whileLoop F l M skip st = (yielded st, False)"
  by (subst whileLoop.simps) auto

lemma whileLoop_stops_at_cursor:
  assumes go: "totalFetched st < M" "\<not> foundLastPost st"
    and page: "listPage F skip = Data (Some posts)"
    and split: "(if skip = 0 then tl posts else posts) = pre @ e # rest"
    and pre: "\<forall>x \<in> set pre. \<not> caughtUp l x"
    and e: "caughtUp l e"
  shows "whileLoop F l M skip st = (yielded (pageLoop F l M (st\<lparr>postsProcessed := 0\<rparr>) pre), False)"
proof -
  let ?st1 = "pageLoop F l M (st\<lparr>postsProcessed := 0\<rparr>) pre"
  let ?st' = "pageLoop F l M (st\<lparr>postsProcessed := 0\<rparr>) (if skip = 0 then tl posts else posts)"
  have "?st' = pageLoop F l M ?st1 (e # rest)"
    using pre by (simp add: split pageLoop_append)
  with e have st': "?st' = (if M \<le> totalFetched ?st1 then ?st1 else ?st1\<lparr>foundLastPost := True\<rparr>)"
    by simp
  then have y: "yielded ?st' = yielded ?st1"
    and stop: "\<not> (totalFetched ?st' < M \<and> \<not> foundLastPost ?st')"
    by (simp_all split: if_splits)
  from split have ne: "posts \<noteq> []" by (auto split: if_splits)
  have "whileLoop F l M skip st =
          (if length posts < first \<or> postsProcessed ?st' = 0 \<and> 0 < length posts
           then (yielded ?st', False) else whileLoop F l M (skip + first) ?st')"
    using go page ne by (subst whileLoop.simps) (simp add: Let_def)
  also have "\<dots> = (yielded ?st', False)"
    using whileLoop_done [OF stop] by simp
  finally show ?thesis using y by simp
qed

text \<open>
  A listing of two pages: the pinned post and posts 154 down to 106 on the first, posts
  105 down to 102 on the second.
\<close>

definition edgeOf :: "nat \<Rightarrow> Edge" where
  "edgeOf n = \<lparr>node_id = decimal n, node_title = ''Offer '' @ decimal n, voteCount = 1,
               commentCount = 0, viewCount = 10, creationDate = 1704067200 + int n\<rparr>"

definition fullPage :: "Edge list" where
  "fullPage = pinned # map edgeOf (rev [106..<155])"

definition twoPages :: forum where
  "twoPages =
     \<lparr>listPage = (\<lambda>skip. if skip = 0 then Data (Some fullPage)
                         else if skip = 50 then Data (Some [e105, e104, e103, e102])
                         else Data None),
      topicContent = (\<lambda>n. Data (Some ''body''))\<rparr>"

lemma getLatestPosts_behind_pinned:
  "getLatestPosts (onePage [pin, e105, e104, e103, e102]) (Some ''103'') 500
     = ([toPost e105 ''body'', toPost e104 ''body''], False)"
  by (simp add: eval_forum)

lemma fullPage_length: "length fullPage = 50"
  by (simp add: fullPage_def)

lemma fullPage_ids: "map node_id (tl fullPage) = map decimal (rev [106..<155])"
  by (simp add: fullPage_def edgeOf_def)

lemma twoPages_first_page:
  "pageLoop twoPages (Some ''103'') 500
     \<lparr>totalFetched = 0, postsProcessed = 0, foundLastPost = False, yielded = []\<rparr> (tl fullPage)
   = \<lparr>totalFetched = 49, postsProcessed = 49, foundLastPost = False,
      yielded = map (\<lambda>e. toPost e ''body'') (tl fullPage)\<rparr>"
  by (simp add: fullPage_def edgeOf_def twoPages_def decimal.simps digitChar_def upt_rec
      caughtUp_def parseInt_def unsignedInt_def isWhiteSpace_def digitValue_def
      getPostContent_def toPost_def)


text \<open>
  C3. With a non-empty cursor, every yielded post whose id is a number has an id strictly
  greater than the cursor's, so the post with the cursor's id is not yielded. On whatever
  page the loop of the generator is (any offset, any posts yielded so far), when the page
  (without the pinned post, on the first page) has an edge at or below the cursor, after
  edges that are all above it, the generator yields what those edges give and ends:
  nothing at or after that edge is yielded and no further page is asked for. The posts
  105, 104, 103, 102, listed newest first behind the pinned post, yield exactly 105 and
  104 with cursor 103, whatever the pinned post is.
\<close>

theorem C3_yields_only_posts_newer_than_cursor:
  "(c \<noteq> [] \<and> p \<in> set (fst (getLatestPosts F (Some c) maxPosts))
      \<and> parseInt c = Some m \<and> parseInt (id' p) = Some n \<longrightarrow> m < n)
   \<and> (totalFetched st < maxPosts \<and> \<not> foundLastPost st \<and> listPage F skip = Data (Some page)
        \<and> (if skip = 0 then tl page else page) = pre @ e # rest
        \<and> (\<forall>x \<in> set pre. \<not> caughtUp cursor x) \<and> caughtUp cursor e
      \<longrightarrow> whileLoop F cursor maxPosts skip st
            = (yielded (pageLoop F cursor maxPosts (st\<lparr>postsProcessed := 0\<rparr>) pre), False))
   \<and> getLatestPosts (onePage [pin, e105, e104, e103, e102]) (Some ''103'') 500
        = ([toPost e105 ''body'', toPost e104 ''body''], False)"
proof (intro conjI impI)
  assume a: "c \<noteq> [] \<and> p \<in> set (fst (getLatestPosts F (Some c) maxPosts))
      \<and> parseInt c = Some m \<and> parseInt (id' p) = Some n"
  then have "\<not> js_le (parseInt (id' p)) (parseInt c)"
    using whileLoop_newer [of c "\<lparr>totalFetched = 0, postsProcessed = 0, foundLastPost = False,
        yielded = []\<rparr>" p F maxPosts 0]
    by (simp add: getLatestPosts_def)
  with a show "m < n" by simp
next
  assume "totalFetched st < maxPosts \<and> \<not> foundLastPost st \<and> listPage F skip = Data (Some page)
        \<and> (if skip = 0 then tl page else page) = pre @ e # rest
        \<and> (\<forall>x \<in> set pre. \<not> caughtUp cursor x) \<and> caughtUp cursor e"
  then show "whileLoop F cursor maxPosts skip st
            = (yielded (pageLoop F cursor maxPosts (st\<lparr>postsProcessed := 0\<rparr>) pre), False)"
    by (intro whileLoop_stops_at_cursor [where posts = page and e = e and rest = rest]) simp_all
next
  show "getLatestPosts (onePage [pin, e105, e104, e103, e102]) (Some ''103'') 500
        = ([toPost e105 ''body'', toPost e104 ''body''], False)"
    by (rule getLatestPosts_behind_pinned)
qed

theorem C3_yields_only_posts_newer_than_cursor_witness:
  "getLatestPosts twoPages (Some ''103'') 500
     = (map (\<lambda>e. toPost e ''body'') (tl fullPage @ [e105, e104]), False)
   \<and> map node_id (tl fullPage @ [e105, e104]) = map decimal (rev [106..<155]) @ [''105'', ''104'']
   \<and> caughtUp (Some ''103'') e103
   \<and> parseInt ''103'' = Some 103 \<and> parseInt (id' (toPost e105 ''body'')) = Some 105
   \<and> (103 :: int) < 105"
proof -
  let ?init = "\<lparr>totalFetched = 0, postsProcessed = 0, foundLastPost = False, yielded = []\<rparr>"
  let ?st = "\<lparr>totalFetched = 49, postsProcessed = 49, foundLastPost = False,
              yielded = map (\<lambda>e. toPost e ''body'') (tl fullPage)\<rparr>"
  note inst = C3_yields_only_posts_newer_than_cursor [where F = twoPages and maxPosts = 500]
  have at: "caughtUp (Some ''103'') e103"
    and above: "\<forall>x \<in> set [e105, e104]. \<not> caughtUp (Some ''103'') x"
    by (simp_all add: eval_forum)
  have page0: "listPage twoPages 0 = Data (Some fullPage)"
    and page1: "listPage twoPages 50 = Data (Some [e105, e104, e103, e102])"
    by (simp_all add: twoPages_def)
  have first_page: "whileLoop twoPages (Some ''103'') 500 0 ?init
                      = whileLoop twoPages (Some ''103'') 500 50 ?st"
    by (subst whileLoop.simps) (simp add: page0 fullPage_length twoPages_first_page first_def)
  have second: "pageLoop twoPages (Some ''103'') 500 (?st\<lparr>postsProcessed := 0\<rparr>) [e105, e104]
                  = \<lparr>totalFetched = 51, postsProcessed = 2, foundLastPost = False,
                     yielded = map (\<lambda>e. toPost e ''body'') (tl fullPage @ [e105, e104])\<rparr>"
    by (simp add: twoPages_def e105_def e104_def caughtUp_def parseInt_def unsignedInt_def
        isWhiteSpace_def digitValue_def getPostContent_def)
  from inst [where cursor = "Some ''103''" and skip = 50 and st = ?st
      and page = "[e105, e104, e103, e102]" and pre = "[e105, e104]" and e = e103
      and rest = "[e102]", THEN conjunct2, THEN conjunct1] page1 at above
  have "whileLoop twoPages (Some ''103'') 500 50 ?st
          = (yielded (pageLoop twoPages (Some ''103'') 500 (?st\<lparr>postsProcessed := 0\<rparr>) [e105, e104]),
             False)"
    by simp
  with first_page second
  have all: "getLatestPosts twoPages (Some ''103'') 500
               = (map (\<lambda>e. toPost e ''body'') (tl fullPage @ [e105, e104]), False)"
    by (simp add: getLatestPosts_def)
  have nums: "parseInt ''103'' = Some 103" "parseInt (id' (toPost e105 ''body'')) = Some 105"
    by (simp_all add: eval_forum)
  have mem: "toPost e105 ''body'' \<in> set (fst (getLatestPosts twoPages (Some ''103'') 500))"
    by (simp add: all)
  from inst [where c = "''103''" and p = "toPost e105 ''body''" and m = 103 and n = 105,
      THEN conjunct1] mem nums
  have "(103 :: int) < 105" by simp
  moreover have "map node_id (tl fullPage @ [e105, e104])
                   = map decimal (rev [106..<155]) @ [''105'', ''104'']"
    by (simp add: fullPage_ids e105_def e104_def)
  ultimately show ?thesis using all at nums by simp
qed


end
